theory Spec2Isabelle
  imports Main "HOL-Library.Word"
begin

section \<open>Data model\<close>

text \<open>
  The vault subsystem of Keyper: the encoding utilities (\<^verbatim>\<open>src/crypto/encoding.ts\<close>), the
  passphrase-based cipher module (\<^verbatim>\<open>src/crypto/crypto.ts\<close>), the envelope key manager
  (\<^verbatim>\<open>SecureVault\<close>), the storage access (\<^verbatim>\<open>VaultStorage\<close>) and the lifecycle manager
  (\<^verbatim>\<open>VaultManager\<close>).

  A \<^verbatim>\<open>Uint8Array\<close> is a list of 8-bit words, a JavaScript string is the list of its
  UTF-16 code units (so \<^verbatim>\<open>str.length\<close> is \<open>length\<close>). An \<^verbatim>\<open>async\<close> function is modelled
  as one atomic step from the state before the call to the state after it; interleavings
  of several pending calls are outside the model.
\<close>

type_synonym byte = "8 word"
type_synonym bytes = "byte list"
type_synonym code_unit = "16 word"
type_synonym jsstring = "code_unit list"

text \<open>\<^verbatim>\<open>CryptoErrorType\<close> of \<^verbatim>\<open>src/crypto/types.ts\<close>.\<close>

datatype CryptoErrorType =
    VAULT_LOCKED
  | VAULT_NOT_INITIALIZED
  | INVALID_PASSPHRASE
  | UNSUPPORTED_VERSION
  | DECRYPTION_FAILED
  | ENCRYPTION_FAILED
  | KEY_DERIVATION_FAILED
  | INVALID_BLOB_FORMAT

text \<open>
  What a call can throw: a \<^verbatim>\<open>CryptoError\<close> of the repository, or an exception of the
  platform, told apart the way the \<^verbatim>\<open>catch\<close> blocks of the source tell them apart
  (\<^verbatim>\<open>instanceof CryptoError\<close>, \<^verbatim>\<open>error.name === "OperationError"\<close>). \<open>RangeError\<close> is what
  a call with more arguments than the engine accepts throws.
\<close>

datatype exn =
    CryptoError CryptoErrorType
  | OperationError
  | InvalidCharacterError
  | DataError
  | RangeError
  | PostgrestError
  | NetworkError

datatype KdfName = Argon2id | Pbkdf2

text \<open>
  \<^verbatim>\<open>SecretBlobV1\<close>; \<^verbatim>\<open>WrappedDEK\<close> of \<^verbatim>\<open>SecureVault\<close> has the same fields. The
  declared type of \<^verbatim>\<open>v\<close> is the literal \<^verbatim>\<open>1\<close>, but blobs arrive from JSON and the source
  compares \<^verbatim>\<open>blob.v !== 1\<close> at run time, so the field is an integer here.
\<close>

record SecretBlobV1 =
  v :: int
  kdf :: KdfName
  salt :: jsstring
  iv :: jsstring
  ct :: jsstring

type_synonym WrappedDEK = SecretBlobV1

datatype VaultEvent = Locked | Unlocked | AutoLocked

text \<open>What the vault hands to the audit collaborator (\<^verbatim>\<open>SecurityAuditLogger\<close>).\<close>

datatype audit_entry =
    VaultUnlockLogged bool
  | EncryptLogged bool
  | DecryptLogged bool
  | VaultLockLogged

text \<open>
  The result of \<^verbatim>\<open>argon2Module.hash\<close>: the hash, an \<^verbatim>\<open>Error\<close> whose message contains
  "Cannot resolve module", "Failed to fetch" or "not supported" (the three messages
  \<^verbatim>\<open>deriveKeyArgon2\<close> answers with PBKDF2), or any other rejection.
\<close>

datatype argon2_result = Hash bytes | HashUnsupported | HashFailed

text \<open>
  The \<^verbatim>\<open>wrapped_dek\<close> column of a \<^verbatim>\<open>vault_config\<close> row, by the cases \<^verbatim>\<open>getVaultConfig\<close>
  distinguishes: a falsy value, an object with a truthy \<^verbatim>\<open>placeholder\<close>, a truthy value
  that is no object, and an object with the fields of a wrapped DEK (an absent or falsy
  \<^verbatim>\<open>kdf\<close> is \<open>None\<close>, an absent string is empty).
\<close>

datatype stored_dek =
    DekFalsy
  | DekPlaceholder
  | DekNotObject
  | DekObject int "KdfName option" jsstring jsstring jsstring

text \<open>
  The outcome of the query \<^verbatim>\<open>supabase.from('vault_config').select('*').eq(...).single()\<close>:
  a row (or no data), an error object with its code (\<open>True\<close> for \<^verbatim>\<open>PGRST116\<close>, no rows), or
  a thrown exception (\<open>True\<close> for a network failure).
\<close>

datatype query_result =
    QueryData "stored_dek option"
  | QueryError bool
  | QueryThrows bool

text \<open>
  The platform the code runs on: the random source behind \<^verbatim>\<open>crypto.getRandomValues\<close> and
  \<^verbatim>\<open>generateKey\<close> (the bytes it hands out, in order), AES-GCM of \<^verbatim>\<open>crypto.subtle\<close> (key,
  nonce, data; \<open>None\<close> is an \<^verbatim>\<open>OperationError\<close>), PBKDF2-HMAC-SHA256 (passphrase bytes,
  salt, iterations), the argon2-browser module (whether its dynamic import succeeds, and
  its hash), the largest number of arguments that the JavaScript engine accepts in one
  call, and the answers of the database, in order. A \<^verbatim>\<open>CryptoKey\<close> is its raw key
  material.
\<close>

record platform =
  entropy :: "nat \<Rightarrow> byte"
  aesGcmEncrypt :: "bytes \<Rightarrow> bytes \<Rightarrow> bytes \<Rightarrow> bytes option"
  aesGcmDecrypt :: "bytes \<Rightarrow> bytes \<Rightarrow> bytes \<Rightarrow> bytes option"
  pbkdf2Sha256 :: "bytes \<Rightarrow> bytes \<Rightarrow> nat \<Rightarrow> bytes option"
  argon2Import :: bool
  argon2Hash :: "jsstring \<Rightarrow> bytes \<Rightarrow> argon2_result"
  maxArguments :: nat
  dbResponse :: "nat \<Rightarrow> query_result"

text \<open>
  The mutable state outside the vault object: how many random bytes were drawn, the
  module variable \<^verbatim>\<open>argon2Available\<close> of \<^verbatim>\<open>crypto.ts\<close> (set together with
  \<^verbatim>\<open>argon2Module\<close>), the clock in milliseconds, what each listener was called with, the
  audit log, and the number of database queries made.
\<close>

record world =
  rngPos :: nat
  argon2Available :: bool
  now :: int
  notified :: "(nat \<times> VaultEvent) list"
  auditLog :: "audit_entry list"
  dbCalls :: nat

text \<open>
  The fields of \<^verbatim>\<open>class SecureVault\<close>. A listener is identified by a number; the timer
  handle is the time at which the pending timeout fires.
\<close>

record SecureVault =
  dek :: "bytes option"
  wrappedDEK :: "WrappedDEK option"
  autoLockTimeoutMs :: int
  autoLockTimer :: "int option"
  lastActivity :: "int option"
  listeners :: "nat list"

record VaultManager =
  initialized :: bool
  secureVault :: SecureVault

section \<open>Encoding utilities\<close>

subsection \<open>Base64\<close>

text \<open>
  \<^verbatim>\<open>btoa\<close> and \<^verbatim>\<open>atob\<close> of the platform. \<^verbatim>\<open>btoa\<close> takes three bytes to four characters of
  the alphabet \<^verbatim>\<open>A-Z a-z 0-9 + /\<close> and pads with \<^verbatim>\<open>=\<close>; it throws on a code unit above
  255. \<^verbatim>\<open>atob\<close> is the forgiving decoder: it drops ASCII whitespace, drops one or two
  trailing \<^verbatim>\<open>=\<close> when the length is a multiple of four, throws when the remaining length
  is 1 modulo 4 or a character is outside the alphabet, and discards the surplus bits.
\<close>

definition b64char :: "nat \<Rightarrow> code_unit" where
  "b64char n = of_nat (if n < 26 then 65 + n else if n < 52 then 71 + n
                       else if n < 62 then n - 4 else if n = 62 then 43 else 47)"

definition b64val :: "code_unit \<Rightarrow> nat option" where
  "b64val c = (let u = unat c in
     if 65 \<le> u \<and> u \<le> 90 then Some (u - 65)
     else if 97 \<le> u \<and> u \<le> 122 then Some (u - 71)
     else if 48 \<le> u \<and> u \<le> 57 then Some (u + 4)
     else if u = 43 then Some 62
     else if u = 47 then Some 63
     else None)"

definition padChar :: code_unit where
  "padChar = 61"

fun base64_encode :: "bytes \<Rightarrow> jsstring" where
  "base64_encode (a # b # c # rest) =
     (let n = unat a * 65536 + unat b * 256 + unat c in
      b64char (n div 262144) # b64char (n div 4096 mod 64) #
      b64char (n div 64 mod 64) # b64char (n mod 64) # base64_encode rest)"
| "base64_encode [a, b] =
     (let n = unat a * 1024 + unat b * 4 in
      [b64char (n div 4096), b64char (n div 64 mod 64), b64char (n mod 64), padChar])"
| "base64_encode [a] =
     (let n = unat a * 16 in [b64char (n div 64), b64char (n mod 64), padChar, padChar])"
| "base64_encode [] = []"

definition btoa :: "jsstring \<Rightarrow> exn + jsstring" where
  "btoa s = (if \<exists>c \<in> set s. 255 < c then Inl InvalidCharacterError
             else Inr (base64_encode (map ucast s)))"

definition asciiWhitespace :: "code_unit \<Rightarrow> bool" where
  "asciiWhitespace c \<longleftrightarrow> c = 9 \<or> c = 10 \<or> c = 12 \<or> c = 13 \<or> c = 32"

definition stripPadding :: "jsstring \<Rightarrow> jsstring" where
  "stripPadding d =
     (if length d mod 4 = 0 \<and> d \<noteq> [] \<and> last d = padChar
      then (if butlast d \<noteq> [] \<and> last (butlast d) = padChar then butlast (butlast d)
            else butlast d)
      else d)"

fun sextets :: "jsstring \<Rightarrow> nat list option" where
  "sextets [] = Some []"
| "sextets (c # cs) =
     (case b64val c of None \<Rightarrow> None
      | Some x \<Rightarrow> (case sextets cs of None \<Rightarrow> None | Some xs \<Rightarrow> Some (x # xs)))"

fun sextetsToBytes :: "nat list \<Rightarrow> bytes" where
  "sextetsToBytes (s1 # s2 # s3 # s4 # rest) =
     (let n = s1 * 262144 + s2 * 4096 + s3 * 64 + s4 in
      of_nat (n div 65536) # of_nat (n div 256 mod 256) # of_nat (n mod 256) #
      sextetsToBytes rest)"
| "sextetsToBytes [s1, s2, s3] =
     (let n = s1 * 4096 + s2 * 64 + s3 in [of_nat (n div 1024), of_nat (n div 4 mod 256)])"
| "sextetsToBytes [s1, s2] = (let n = s1 * 64 + s2 in [of_nat (n div 16)])"
| "sextetsToBytes [s1] = []"
| "sextetsToBytes [] = []"

definition atob :: "jsstring \<Rightarrow> exn + jsstring" where
  "atob d =
     (let d1 = filter (\<lambda>c. \<not> asciiWhitespace c) d;
          d2 = stripPadding d1
      in if length d2 mod 4 = 1 then Inl InvalidCharacterError
         else (case sextets d2 of
                 None \<Rightarrow> Inl InvalidCharacterError
               | Some xs \<Rightarrow> Inr (map ucast (sextetsToBytes xs))))"

text \<open>
  \<^verbatim>\<open>bufToBase64\<close> builds the binary string of the bytes with \<^verbatim>\<open>String.fromCharCode\<close> and
  passes it to \<^verbatim>\<open>btoa\<close>. No code unit of that string exceeds 255, so \<^verbatim>\<open>btoa\<close> does not
  throw (lemma \<open>btoa_binaryString\<close>) and the function is total. The private copy in
  \<^verbatim>\<open>SecureVault\<close> builds the same string with a spread call and is modelled with the
  vault (\<open>vaultBufToBase64\<close>).
  \<^verbatim>\<open>base64ToBuf\<close> stores the code units of \<^verbatim>\<open>atob\<close>'s result into a \<^verbatim>\<open>Uint8Array\<close>.
\<close>

definition bufToBase64 :: "bytes \<Rightarrow> jsstring" where
  "bufToBase64 buf = base64_encode buf"

definition base64ToBuf :: "jsstring \<Rightarrow> exn + bytes" where
  "base64ToBuf b64 = (case atob b64 of Inl e \<Rightarrow> Inl e | Inr binaryString \<Rightarrow> Inr (map ucast binaryString))"

subsection \<open>UTF-8\<close>

text \<open>
  \<^verbatim>\<open>utf8Encode\<close> is \<^verbatim>\<open>new TextEncoder().encode(str)\<close>: the string is first converted to
  scalar values (a surrogate pair is one supplementary code point, an unpaired surrogate
  becomes U+FFFD), then each scalar value is written in one to four bytes.
\<close>

definition isLead :: "code_unit \<Rightarrow> bool" where
  "isLead c \<longleftrightarrow> 0xD800 \<le> unat c \<and> unat c \<le> 0xDBFF"

definition isTrail :: "code_unit \<Rightarrow> bool" where
  "isTrail c \<longleftrightarrow> 0xDC00 \<le> unat c \<and> unat c \<le> 0xDFFF"

fun toScalars :: "jsstring \<Rightarrow> nat list" where
  "toScalars [] = []"
| "toScalars [c] = [if isLead c \<or> isTrail c then 0xFFFD else unat c]"
| "toScalars (c # d # cs) =
     (if isLead c then
        (if isTrail d
         then (0x10000 + (unat c - 0xD800) * 1024 + (unat d - 0xDC00)) # toScalars cs
         else 0xFFFD # toScalars (d # cs))
      else if isTrail c then 0xFFFD # toScalars (d # cs)
      else unat c # toScalars (d # cs))"

definition utf8EncodeScalar :: "nat \<Rightarrow> bytes" where
  "utf8EncodeScalar cp =
     (if cp < 0x80 then [of_nat cp]
      else if cp < 0x800 then [of_nat (0xC0 + cp div 64), of_nat (0x80 + cp mod 64)]
      else if cp < 0x10000 then
        [of_nat (0xE0 + cp div 64 div 64), of_nat (0x80 + cp div 64 mod 64),
         of_nat (0x80 + cp mod 64)]
      else
        [of_nat (0xF0 + cp div 64 div 64 div 64), of_nat (0x80 + cp div 64 div 64 mod 64),
         of_nat (0x80 + cp div 64 mod 64), of_nat (0x80 + cp mod 64)])"

definition utf8Encode :: "jsstring \<Rightarrow> bytes" where
  "utf8Encode str = concat (map utf8EncodeScalar (toScalars str))"

text \<open>
  \<^verbatim>\<open>utf8Decode\<close> is \<^verbatim>\<open>new TextDecoder().decode(buffer)\<close> with the default options: the
  UTF-8 decoder of the Encoding Standard, which replaces every ill-formed sequence by
  U+FFFD and reads the offending byte again, and, since \<^verbatim>\<open>ignoreBOM\<close> is false, drops a
  byte order mark U+FEFF at the start of the output. The decoder state is the code point
  under construction, the number of continuation bytes still needed and the bounds of the
  next byte.
\<close>

type_synonym utf8state = "nat \<times> nat \<times> nat \<times> nat"

definition utf8Init :: utf8state where
  "utf8Init = (0, 0, 0x80, 0xBF)"

definition utf8Lead :: "nat \<Rightarrow> nat list \<times> utf8state" where
  "utf8Lead u =
     (if u \<le> 0x7F then ([u], utf8Init)
      else if 0xC2 \<le> u \<and> u \<le> 0xDF then ([], (u mod 32, 1, 0x80, 0xBF))
      else if 0xE0 \<le> u \<and> u \<le> 0xEF then
        ([], (u mod 16, 2, if u = 0xE0 then 0xA0 else 0x80, if u = 0xED then 0x9F else 0xBF))
      else if 0xF0 \<le> u \<and> u \<le> 0xF4 then
        ([], (u mod 8, 3, if u = 0xF0 then 0x90 else 0x80, if u = 0xF4 then 0x8F else 0xBF))
      else ([0xFFFD], utf8Init))"

fun utf8DecodeFrom :: "utf8state \<Rightarrow> bytes \<Rightarrow> nat list" where
  "utf8DecodeFrom (cp, need, lo, hi) [] = (if need \<noteq> 0 then [0xFFFD] else [])"
| "utf8DecodeFrom (cp, need, lo, hi) (b # bs) =
     (if need = 0 then
        (case utf8Lead (unat b) of (out, st) \<Rightarrow> out @ utf8DecodeFrom st bs)
      else if unat b < lo \<or> hi < unat b then
        0xFFFD # (case utf8Lead (unat b) of (out, st) \<Rightarrow> out @ utf8DecodeFrom st bs)
      else if need = 1 then (cp * 64 + unat b mod 64) # utf8DecodeFrom utf8Init bs
      else utf8DecodeFrom (cp * 64 + unat b mod 64, need - 1, 0x80, 0xBF) bs)"

definition toUtf16 :: "nat \<Rightarrow> jsstring" where
  "toUtf16 cp =
     (if cp < 0x10000 then [of_nat cp]
      else [of_nat (0xD800 + (cp - 0x10000) div 1024),
            of_nat (0xDC00 + (cp - 0x10000) mod 1024)])"

definition stripBOM :: "nat list \<Rightarrow> nat list" where
  "stripBOM cps = (case cps of [] \<Rightarrow> [] | c # rest \<Rightarrow> if c = 0xFEFF then rest else cps)"

definition utf8Decode :: "bytes \<Rightarrow> jsstring" where
  "utf8Decode buffer = concat (map toUtf16 (stripBOM (utf8DecodeFrom utf8Init buffer)))"

text \<open>
  The strings that survive the codec: \<open>wellFormed\<close> is \<^verbatim>\<open>String.prototype.isWellFormed\<close>
  (no unpaired surrogate), \<open>startsWithBOM\<close> holds when the first code unit is U+FEFF.
\<close>

fun wellFormed :: "jsstring \<Rightarrow> bool" where
  "wellFormed [] = True"
| "wellFormed [c] = (\<not> isLead c \<and> \<not> isTrail c)"
| "wellFormed (c # d # cs) =
     (if isLead c then isTrail d \<and> wellFormed cs else \<not> isTrail c \<and> wellFormed (d # cs))"

definition startsWithBOM :: "jsstring \<Rightarrow> bool" where
  "startsWithBOM s = (case s of [] \<Rightarrow> False | c # _ \<Rightarrow> c = 0xFEFF)"

subsection \<open>Random bytes\<close>

text \<open>\<^verbatim>\<open>randomBytes(length)\<close>: the next \<open>n\<close> bytes of the random source.\<close>

definition randomBytes :: "platform \<Rightarrow> nat \<Rightarrow> world \<Rightarrow> bytes \<times> world" where
  "randomBytes pl n w =
     (map (entropy pl) [rngPos w ..< rngPos w + n], w\<lparr>rngPos := rngPos w + n\<rparr>)"

section \<open>The cipher module (\<^verbatim>\<open>crypto.ts\<close>)\<close>

definition IV_LENGTH :: nat where
  "IV_LENGTH = 12"

definition SALT_LENGTH :: nat where
  "SALT_LENGTH = 16"

definition PBKDF2_ITERATIONS :: nat where
  "PBKDF2_ITERATIONS = 310000"

text \<open>
  \<^verbatim>\<open>importAesKey\<close>: \<^verbatim>\<open>crypto.subtle.importKey("raw", ..., {name: "AES-GCM"}, ...)\<close> accepts
  key material of 128, 192 or 256 bits and throws a \<^verbatim>\<open>DataError\<close> otherwise.
\<close>

definition importAesKey :: "bytes \<Rightarrow> exn + bytes" where
  "importAesKey rawKey =
     (if length rawKey = 16 \<or> length rawKey = 24 \<or> length rawKey = 32 then Inr rawKey
      else Inl DataError)"

text \<open>\<^verbatim>\<open>deriveKeyPBKDF2\<close>: every failure is rethrown as \<^verbatim>\<open>KEY_DERIVATION_FAILED\<close>.\<close>

definition deriveKeyPBKDF2 :: "platform \<Rightarrow> jsstring \<Rightarrow> bytes \<Rightarrow> exn + bytes" where
  "deriveKeyPBKDF2 pl passphrase saltBytes =
     (case pbkdf2Sha256 pl (utf8Encode passphrase) saltBytes PBKDF2_ITERATIONS of
        None \<Rightarrow> Inl (CryptoError KEY_DERIVATION_FAILED)
      | Some key \<Rightarrow> Inr key)"

text \<open>
  \<^verbatim>\<open>deriveKeyArgon2\<close>. When the module is not loaded the import is tried once more; if that
  fails the PBKDF2 key is returned from inside the \<^verbatim>\<open>try\<close>, so a PBKDF2 failure there is
  caught by the outer \<^verbatim>\<open>catch\<close> and rethrown as the Argon2id failure. A hash failure whose
  message is one of the three recognised ones falls back to PBKDF2 from inside the
  \<^verbatim>\<open>catch\<close>; every other failure is \<^verbatim>\<open>KEY_DERIVATION_FAILED\<close>.
\<close>

definition deriveKeyArgon2 ::
    "platform \<Rightarrow> jsstring \<Rightarrow> bytes \<Rightarrow> world \<Rightarrow> (exn + bytes) \<times> world" where
  "deriveKeyArgon2 pl passphrase saltBytes w =
     (if \<not> argon2Available w \<and> \<not> argon2Import pl then
        (case deriveKeyPBKDF2 pl passphrase saltBytes of
           Inl e \<Rightarrow> (Inl (CryptoError KEY_DERIVATION_FAILED), w)
         | Inr key \<Rightarrow> (Inr key, w))
      else
        (let w1 = w\<lparr>argon2Available := True\<rparr> in
         case argon2Hash pl passphrase saltBytes of
           Hash rawKey \<Rightarrow>
             (case importAesKey rawKey of
                Inl e \<Rightarrow> (Inl (CryptoError KEY_DERIVATION_FAILED), w1)
              | Inr key \<Rightarrow> (Inr key, w1))
         | HashUnsupported \<Rightarrow> (deriveKeyPBKDF2 pl passphrase saltBytes, w1)
         | HashFailed \<Rightarrow> (Inl (CryptoError KEY_DERIVATION_FAILED), w1)))"

text \<open>
  \<^verbatim>\<open>deriveKey\<close>: Argon2id first; the tag is \<^verbatim>\<open>argon2id\<close> when the module is loaded after the
  call; on any failure the key is derived with PBKDF2.
\<close>

definition deriveKey ::
    "platform \<Rightarrow> jsstring \<Rightarrow> bytes \<Rightarrow> world \<Rightarrow> (exn + bytes \<times> KdfName) \<times> world" where
  "deriveKey pl passphrase saltBytes w =
     (case deriveKeyArgon2 pl passphrase saltBytes w of
        (Inr key, w1) \<Rightarrow> (Inr (key, if argon2Available w1 then Argon2id else Pbkdf2), w1)
      | (Inl e, w1) \<Rightarrow>
          (case deriveKeyPBKDF2 pl passphrase saltBytes of
             Inl e' \<Rightarrow> (Inl e', w1)
           | Inr key \<Rightarrow> (Inr (key, Pbkdf2), w1)))"

text \<open>\<^verbatim>\<open>encryptString\<close>: every failure inside is rethrown as \<^verbatim>\<open>ENCRYPTION_FAILED\<close>.\<close>

definition encryptString ::
    "platform \<Rightarrow> jsstring \<Rightarrow> jsstring \<Rightarrow> world \<Rightarrow> (exn + SecretBlobV1) \<times> world" where
  "encryptString pl passphrase plaintext w =
     (case randomBytes pl SALT_LENGTH w of (saltBytes, w1) \<Rightarrow>
      case randomBytes pl IV_LENGTH w1 of (ivBytes, w2) \<Rightarrow>
      case deriveKey pl passphrase saltBytes w2 of
        (Inl e, w3) \<Rightarrow> (Inl (CryptoError ENCRYPTION_FAILED), w3)
      | (Inr (key, kdfUsed), w3) \<Rightarrow>
          (case aesGcmEncrypt pl key ivBytes (utf8Encode plaintext) of
             None \<Rightarrow> (Inl (CryptoError ENCRYPTION_FAILED), w3)
           | Some ciphertext \<Rightarrow>
               (Inr \<lparr>v = 1, kdf = kdfUsed, salt = bufToBase64 saltBytes,
                     iv = bufToBase64 ivBytes, ct = bufToBase64 ciphertext\<rparr>, w3)))"

text \<open>
  The \<^verbatim>\<open>catch\<close> block of \<^verbatim>\<open>decryptString\<close>: a \<^verbatim>\<open>CryptoError\<close> is rethrown, an
  \<^verbatim>\<open>OperationError\<close> becomes \<^verbatim>\<open>INVALID_PASSPHRASE\<close>, everything else
  \<^verbatim>\<open>DECRYPTION_FAILED\<close>.
\<close>

definition decryptStringCatch :: "exn \<Rightarrow> exn" where
  "decryptStringCatch e =
     (case e of
        CryptoError t \<Rightarrow> CryptoError t
      | OperationError \<Rightarrow> CryptoError INVALID_PASSPHRASE
      | _ \<Rightarrow> CryptoError DECRYPTION_FAILED)"

definition decryptString ::
    "platform \<Rightarrow> jsstring \<Rightarrow> SecretBlobV1 \<Rightarrow> world \<Rightarrow> (exn + jsstring) \<times> world" where
  "decryptString pl passphrase blob w =
     (if v blob \<noteq> 1 then (Inl (decryptStringCatch (CryptoError UNSUPPORTED_VERSION)), w)
      else case base64ToBuf (salt blob) of
        Inl e \<Rightarrow> (Inl (decryptStringCatch e), w)
      | Inr saltBytes \<Rightarrow>
      case base64ToBuf (iv blob) of
        Inl e \<Rightarrow> (Inl (decryptStringCatch e), w)
      | Inr ivBytes \<Rightarrow>
      case base64ToBuf (ct blob) of
        Inl e \<Rightarrow> (Inl (decryptStringCatch e), w)
      | Inr ciphertext \<Rightarrow>
      case deriveKey pl passphrase saltBytes w of
        (Inl e, w1) \<Rightarrow> (Inl (decryptStringCatch e), w1)
      | (Inr (key, kdfUsed), w1) \<Rightarrow>
          (case aesGcmDecrypt pl key ivBytes ciphertext of
             None \<Rightarrow> (Inl (decryptStringCatch OperationError), w1)
           | Some plaintextBuffer \<Rightarrow> (Inr (utf8Decode plaintextBuffer), w1)))"

section \<open>The vault core (\<^verbatim>\<open>SecureVault\<close>)\<close>

definition newSecureVault :: SecureVault where
  "newSecureVault =
     \<lparr>dek = None, wrappedDEK = None, autoLockTimeoutMs = 15 * 60 * 1000,
      autoLockTimer = None, lastActivity = None, listeners = []\<rparr>"

definition initializeWithWrappedDEK :: "WrappedDEK \<Rightarrow> SecureVault \<Rightarrow> SecureVault" where
  "initializeWithWrappedDEK wrapped s = s\<lparr>wrappedDEK := Some wrapped\<rparr>"

definition isUnlocked :: "SecureVault \<Rightarrow> bool" where
  "isUnlocked s \<longleftrightarrow> dek s \<noteq> None"

definition clearAutoLockTimer :: "SecureVault \<Rightarrow> SecureVault" where
  "clearAutoLockTimer s =
     (case autoLockTimer s of None \<Rightarrow> s | Some t \<Rightarrow> s\<lparr>autoLockTimer := None\<rparr>)"

text \<open>
  \<^verbatim>\<open>setTimeout\<close> keeps its delay in a signed 32-bit integer: a delay above 2147483647 ms
  is replaced by 1 ms, so that the timer fires at once.
\<close>

definition timeoutDelay :: "int \<Rightarrow> int" where
  "timeoutDelay ms = (if 2147483647 < ms then 1 else ms)"

definition resetAutoLockTimer :: "world \<Rightarrow> SecureVault \<Rightarrow> SecureVault" where
  "resetAutoLockTimer w s =
     (let s1 = clearAutoLockTimer s in
      if 0 < autoLockTimeoutMs s1
      then s1\<lparr>autoLockTimer := Some (now w + timeoutDelay (autoLockTimeoutMs s1))\<rparr>
      else s1)"

definition updateActivity :: "world \<Rightarrow> SecureVault \<Rightarrow> SecureVault" where
  "updateActivity w s = resetAutoLockTimer w (s\<lparr>lastActivity := Some (now w)\<rparr>)"

text \<open>
  \<^verbatim>\<open>notifyListeners\<close> calls every registered listener with the event; what a listener
  throws is caught and logged. Listeners that call back into the vault are outside the
  model.
\<close>

definition notifyListeners :: "VaultEvent \<Rightarrow> SecureVault \<Rightarrow> world \<Rightarrow> world" where
  "notifyListeners ev s w = w\<lparr>notified := notified w @ map (\<lambda>l. (l, ev)) (listeners s)\<rparr>"

definition logAudit :: "audit_entry \<Rightarrow> world \<Rightarrow> world" where
  "logAudit a w = w\<lparr>auditLog := auditLog w @ [a]\<rparr>"

definition addEventListener :: "nat \<Rightarrow> SecureVault \<Rightarrow> SecureVault" where
  "addEventListener l s = s\<lparr>listeners := listeners s @ [l]\<rparr>"

definition removeEventListener :: "nat \<Rightarrow> SecureVault \<Rightarrow> SecureVault" where
  "removeEventListener l s = s\<lparr>listeners := remove1 l (listeners s)\<rparr>"

text \<open>
  The private \<^verbatim>\<open>bufToBase64\<close> of \<^verbatim>\<open>SecureVault\<close> passes every byte as one argument of
  \<^verbatim>\<open>String.fromCharCode\<close> (a spread call), which throws a \<^verbatim>\<open>RangeError\<close> when the buffer
  has more bytes than the engine accepts arguments; otherwise its result is that of the
  \<^verbatim>\<open>bufToBase64\<close> of the cipher module.
\<close>

definition vaultBufToBase64 :: "platform \<Rightarrow> bytes \<Rightarrow> exn + jsstring" where
  "vaultBufToBase64 pl buffer =
     (if maxArguments pl < length buffer then Inl RangeError else Inr (bufToBase64 buffer))"

text \<open>
  \<^verbatim>\<open>createNewVault\<close>: everything stands in one \<^verbatim>\<open>try\<close> whose \<^verbatim>\<open>catch\<close> logs the failure and
  rethrows; the vault is changed only after the wrapped DEK has been built.
\<close>

definition createNewVault ::
    "platform \<Rightarrow> jsstring \<Rightarrow> world \<Rightarrow> SecureVault \<Rightarrow> (exn + WrappedDEK) \<times> world \<times> SecureVault"
  where
  "createNewVault pl masterPassphrase w s =
     (if masterPassphrase = [] \<or> length masterPassphrase < 8
      then (Inl (CryptoError INVALID_PASSPHRASE), logAudit (VaultUnlockLogged False) w, s)
      else
        case randomBytes pl 32 w of (dekBytes, w1) \<Rightarrow>
        case randomBytes pl 16 w1 of (saltBytes, w2) \<Rightarrow>
        case deriveKey pl masterPassphrase saltBytes w2 of
          (Inl e, w3) \<Rightarrow> (Inl e, logAudit (VaultUnlockLogged False) w3, s)
        | (Inr (kek, kdfUsed), w3) \<Rightarrow>
        case randomBytes pl 12 w3 of (ivBytes, w4) \<Rightarrow>
        case aesGcmEncrypt pl kek ivBytes dekBytes of
          None \<Rightarrow> (Inl OperationError, logAudit (VaultUnlockLogged False) w4, s)
        | Some wrappedDekBytes \<Rightarrow>
        case vaultBufToBase64 pl saltBytes of
          Inl e \<Rightarrow> (Inl e, logAudit (VaultUnlockLogged False) w4, s)
        | Inr saltStr \<Rightarrow>
        case vaultBufToBase64 pl ivBytes of
          Inl e \<Rightarrow> (Inl e, logAudit (VaultUnlockLogged False) w4, s)
        | Inr ivStr \<Rightarrow>
        case vaultBufToBase64 pl wrappedDekBytes of
          Inl e \<Rightarrow> (Inl e, logAudit (VaultUnlockLogged False) w4, s)
        | Inr ctStr \<Rightarrow>
            (let wrapped = \<lparr>v = 1, kdf = kdfUsed, salt = saltStr, iv = ivStr, ct = ctStr\<rparr>;
                 s1 = s\<lparr>wrappedDEK := Some wrapped, dek := Some dekBytes,
                        lastActivity := Some (now w4)\<rparr>;
                 s2 = resetAutoLockTimer w4 s1;
                 w5 = notifyListeners Unlocked s2 (logAudit (VaultUnlockLogged True) w4)
             in (Inr wrapped, w5, s2)))"

text \<open>
  \<^verbatim>\<open>unlock\<close>. The base64 decoding and the key derivation stand outside the inner
  \<^verbatim>\<open>try\<close>, so what they throw reaches the caller unchanged; whatever the AES-GCM
  decryption or the import of the key throws is replaced by \<^verbatim>\<open>INVALID_PASSPHRASE\<close>.
\<close>

definition unlock ::
    "platform \<Rightarrow> jsstring \<Rightarrow> world \<Rightarrow> SecureVault \<Rightarrow> (exn + unit) \<times> world \<times> SecureVault" where
  "unlock pl masterPassphrase w s =
     (case wrappedDEK s of
        None \<Rightarrow>
          (Inl (CryptoError VAULT_NOT_INITIALIZED), logAudit (VaultUnlockLogged False) w, s)
      | Some wrapped \<Rightarrow>
      if masterPassphrase = [] \<or> length masterPassphrase < 8
      then (Inl (CryptoError INVALID_PASSPHRASE), logAudit (VaultUnlockLogged False) w, s)
      else
        case base64ToBuf (salt wrapped) of
          Inl e \<Rightarrow> (Inl e, logAudit (VaultUnlockLogged False) w, s)
        | Inr saltBytes \<Rightarrow>
        case deriveKey pl masterPassphrase saltBytes w of
          (Inl e, w1) \<Rightarrow> (Inl e, logAudit (VaultUnlockLogged False) w1, s)
        | (Inr (kek, kdfUsed), w1) \<Rightarrow>
        case base64ToBuf (iv wrapped) of
          Inl e \<Rightarrow> (Inl e, logAudit (VaultUnlockLogged False) w1, s)
        | Inr ivBytes \<Rightarrow>
        case base64ToBuf (ct wrapped) of
          Inl e \<Rightarrow> (Inl e, logAudit (VaultUnlockLogged False) w1, s)
        | Inr wrappedDekBytes \<Rightarrow>
        case aesGcmDecrypt pl kek ivBytes wrappedDekBytes of
          None \<Rightarrow>
            (Inl (CryptoError INVALID_PASSPHRASE), logAudit (VaultUnlockLogged False) w1, s)
        | Some dekBytes \<Rightarrow>
        case importAesKey dekBytes of
          Inl e \<Rightarrow>
            (Inl (CryptoError INVALID_PASSPHRASE), logAudit (VaultUnlockLogged False) w1, s)
        | Inr key \<Rightarrow>
            (let s1 = s\<lparr>dek := Some key, lastActivity := Some (now w1)\<rparr>;
                 s2 = resetAutoLockTimer w1 s1;
                 w2 = notifyListeners Unlocked s2 (logAudit (VaultUnlockLogged True) w1)
             in (Inr (), w2, s2)))"

definition lock :: "world \<Rightarrow> SecureVault \<Rightarrow> world \<times> SecureVault" where
  "lock w s =
     (case dek s of
        None \<Rightarrow> (w, s)
      | Some key \<Rightarrow>
          (let s1 = clearAutoLockTimer (s\<lparr>dek := None\<rparr>);
               s2 = s1\<lparr>lastActivity := None\<rparr>
           in (notifyListeners Locked s2 (logAudit VaultLockLogged w), s2)))"

text \<open>
  \<^verbatim>\<open>encrypt\<close> logs the success of the operation before it builds the blob, so a
  \<^verbatim>\<open>RangeError\<close> of \<^verbatim>\<open>bufToBase64\<close> is logged as a failure after the success.
\<close>

definition encrypt ::
    "platform \<Rightarrow> jsstring \<Rightarrow> world \<Rightarrow> SecureVault \<Rightarrow> (exn + SecretBlobV1) \<times> world \<times> SecureVault"
  where
  "encrypt pl plaintext w s =
     (case dek s of
        None \<Rightarrow> (Inl (CryptoError VAULT_LOCKED), w, s)
      | Some key \<Rightarrow>
          (let s1 = updateActivity w s in
           case randomBytes pl 12 w of (ivBytes, w1) \<Rightarrow>
           case aesGcmEncrypt pl key ivBytes (utf8Encode plaintext) of
             None \<Rightarrow> (Inl OperationError, logAudit (EncryptLogged False) w1, s1)
           | Some ciphertext \<Rightarrow>
               (let w2 = logAudit (EncryptLogged True) w1 in
                case vaultBufToBase64 pl ivBytes of
                  Inl e \<Rightarrow> (Inl e, logAudit (EncryptLogged False) w2, s1)
                | Inr ivStr \<Rightarrow>
                case vaultBufToBase64 pl ciphertext of
                  Inl e \<Rightarrow> (Inl e, logAudit (EncryptLogged False) w2, s1)
                | Inr ctStr \<Rightarrow>
                    (Inr \<lparr>v = 1,
                           kdf = (case wrappedDEK s1 of None \<Rightarrow> Pbkdf2
                                  | Some wrapped \<Rightarrow> kdf wrapped),
                           salt = (case wrappedDEK s1 of None \<Rightarrow> []
                                   | Some wrapped \<Rightarrow> salt wrapped),
                           iv = ivStr, ct = ctStr\<rparr>,
                     w2, s1))))"

definition decrypt ::
    "platform \<Rightarrow> SecretBlobV1 \<Rightarrow> world \<Rightarrow> SecureVault \<Rightarrow> (exn + jsstring) \<times> world \<times> SecureVault"
  where
  "decrypt pl blob w s =
     (case dek s of
        None \<Rightarrow> (Inl (CryptoError VAULT_LOCKED), w, s)
      | Some key \<Rightarrow>
          (let s1 = updateActivity w s in
           case base64ToBuf (iv blob) of
             Inl e \<Rightarrow> (Inl e, logAudit (DecryptLogged False) w, s1)
           | Inr ivBytes \<Rightarrow>
           case base64ToBuf (ct blob) of
             Inl e \<Rightarrow> (Inl e, logAudit (DecryptLogged False) w, s1)
           | Inr ciphertext \<Rightarrow>
           case aesGcmDecrypt pl key ivBytes ciphertext of
             None \<Rightarrow> (Inl OperationError, logAudit (DecryptLogged False) w, s1)
           | Some plaintextBytes \<Rightarrow>
               (Inr (utf8Decode plaintextBytes), logAudit (DecryptLogged True) w, s1)))"

definition getWrappedDEK :: "SecureVault \<Rightarrow> WrappedDEK option" where
  "getWrappedDEK s = wrappedDEK s"

text \<open>\<^verbatim>\<open>testPassphrase\<close>: whatever is thrown inside the \<^verbatim>\<open>try\<close> yields \<^verbatim>\<open>false\<close>.\<close>

definition testPassphrase ::
    "platform \<Rightarrow> jsstring \<Rightarrow> world \<Rightarrow> SecureVault \<Rightarrow> bool \<times> world \<times> SecureVault" where
  "testPassphrase pl passphrase w s =
     (case wrappedDEK s of
        None \<Rightarrow> (False, w, s)
      | Some wrapped \<Rightarrow>
        case base64ToBuf (salt wrapped) of
          Inl e \<Rightarrow> (False, w, s)
        | Inr saltBytes \<Rightarrow>
        case deriveKey pl passphrase saltBytes w of
          (Inl e, w1) \<Rightarrow> (False, w1, s)
        | (Inr (kek, kdfUsed), w1) \<Rightarrow>
        case base64ToBuf (iv wrapped) of
          Inl e \<Rightarrow> (False, w1, s)
        | Inr ivBytes \<Rightarrow>
        case base64ToBuf (ct wrapped) of
          Inl e \<Rightarrow> (False, w1, s)
        | Inr wrappedDekBytes \<Rightarrow>
        case aesGcmDecrypt pl kek ivBytes wrappedDekBytes of
          None \<Rightarrow> (False, w1, s)
        | Some dekBytes \<Rightarrow> (True, w1, s))"

definition setAutoLockTimeout :: "int \<Rightarrow> world \<Rightarrow> SecureVault \<Rightarrow> SecureVault" where
  "setAutoLockTimeout timeoutMs w s =
     (let s1 = s\<lparr>autoLockTimeoutMs := timeoutMs\<rparr> in
      if isUnlocked s1 then resetAutoLockTimer w s1 else s1)"

text \<open>
  The callback that \<^verbatim>\<open>resetAutoLockTimer\<close> hands to \<^verbatim>\<open>setTimeout\<close>:
  \<^verbatim>\<open>this.lock(); this.notifyListeners('auto-locked')\<close>.
\<close>

definition autoLockTimerFires :: "world \<Rightarrow> SecureVault \<Rightarrow> world \<times> SecureVault" where
  "autoLockTimerFires w s =
     (case lock w s of (w1, s1) \<Rightarrow> (notifyListeners AutoLocked s1 w1, s1))"

text \<open>
  The operations on the vault object, and one step of the system: a call of a method,
  the firing of the pending timeout (only a pending one fires, and not before its time),
  or the passing of time.
\<close>

datatype vault_op =
    InitializeWithWrappedDEK WrappedDEK
  | CreateNewVault jsstring
  | Unlock jsstring
  | Lock
  | Encrypt jsstring
  | Decrypt SecretBlobV1
  | TestPassphrase jsstring
  | AddEventListener nat
  | RemoveEventListener nat
  | SetAutoLockTimeout int
  | TimerFires
  | TimePasses nat

fun step :: "platform \<Rightarrow> world \<times> SecureVault \<Rightarrow> vault_op \<Rightarrow> world \<times> SecureVault" where
  "step pl (w, s) (InitializeWithWrappedDEK wrapped) = (w, initializeWithWrappedDEK wrapped s)"
| "step pl (w, s) (CreateNewVault p) = snd (createNewVault pl p w s)"
| "step pl (w, s) (Unlock p) = snd (unlock pl p w s)"
| "step pl (w, s) Lock = lock w s"
| "step pl (w, s) (Encrypt p) = snd (encrypt pl p w s)"
| "step pl (w, s) (Decrypt blob) = snd (decrypt pl blob w s)"
| "step pl (w, s) (TestPassphrase p) = snd (testPassphrase pl p w s)"
| "step pl (w, s) (AddEventListener l) = (w, addEventListener l s)"
| "step pl (w, s) (RemoveEventListener l) = (w, removeEventListener l s)"
| "step pl (w, s) (SetAutoLockTimeout t) = (w, setAutoLockTimeout t w s)"
| "step pl (w, s) TimerFires =
     (case autoLockTimer s of
        None \<Rightarrow> (w, s)
      | Some t \<Rightarrow> if t \<le> now w then autoLockTimerFires w s else (w, s))"
| "step pl (w, s) (TimePasses d) = (w\<lparr>now := now w + int d\<rparr>, s)"

definition run :: "platform \<Rightarrow> world \<times> SecureVault \<Rightarrow> vault_op list \<Rightarrow> world \<times> SecureVault" where
  "run pl st ops = foldl (step pl) st ops"

section \<open>Storage and lifecycle manager (\<^verbatim>\<open>VaultStorage\<close>, \<^verbatim>\<open>VaultManager\<close>)\<close>

definition supabaseQuery :: "platform \<Rightarrow> world \<Rightarrow> query_result \<times> world" where
  "supabaseQuery pl w = (dbResponse pl (dbCalls w), w\<lparr>dbCalls := dbCalls w + 1\<rparr>)"

text \<open>
  The \<^verbatim>\<open>try\<close> block of \<^verbatim>\<open>getVaultConfig\<close>: \<^verbatim>\<open>PGRST116\<close> is "no rows" and yields
  \<^verbatim>\<open>null\<close>, any other error object is thrown; a row counts only when its wrapped DEK has
  \<^verbatim>\<open>v === 1\<close> and truthy \<^verbatim>\<open>kdf\<close>, \<^verbatim>\<open>salt\<close>, \<^verbatim>\<open>iv\<close> and \<^verbatim>\<open>ct\<close>.
\<close>

definition getVaultConfigTry :: "query_result \<Rightarrow> exn + WrappedDEK option" where
  "getVaultConfigTry r =
     (case r of
        QueryThrows network \<Rightarrow> Inl (if network then NetworkError else PostgrestError)
      | QueryError pgrst116 \<Rightarrow> if pgrst116 then Inr None else Inl PostgrestError
      | QueryData None \<Rightarrow> Inr None
      | QueryData (Some DekFalsy) \<Rightarrow> Inr None
      | QueryData (Some DekPlaceholder) \<Rightarrow> Inr None
      | QueryData (Some DekNotObject) \<Rightarrow> Inr None
      | QueryData (Some (DekObject ver kdfTag saltStr ivStr ctStr)) \<Rightarrow>
          (case kdfTag of
             None \<Rightarrow> Inr None
           | Some k \<Rightarrow>
               if ver = 1 \<and> saltStr \<noteq> [] \<and> ivStr \<noteq> [] \<and> ctStr \<noteq> []
               then Inr (Some \<lparr>v = ver, kdf = k, salt = saltStr, iv = ivStr, ct = ctStr\<rparr>)
               else Inr None))"

text \<open>
  \<^verbatim>\<open>getVaultConfig\<close>: the \<^verbatim>\<open>catch\<close> block returns \<^verbatim>\<open>null\<close> for a network error and for
  every other error alike.
\<close>

definition getVaultConfig :: "platform \<Rightarrow> world \<Rightarrow> WrappedDEK option \<times> world" where
  "getVaultConfig pl w =
     (case supabaseQuery pl w of (r, w1) \<Rightarrow>
        (case getVaultConfigTry r of
           Inl e \<Rightarrow> (None, w1)
         | Inr config \<Rightarrow> (config, w1)))"

definition isVaultInitialized :: "platform \<Rightarrow> world \<Rightarrow> bool \<times> world" where
  "isVaultInitialized pl w = (case getVaultConfig pl w of (config, w1) \<Rightarrow> (config \<noteq> None, w1))"

definition newVaultManager :: VaultManager where
  "newVaultManager = \<lparr>initialized = False, secureVault = newSecureVault\<rparr>"

text \<open>
  \<^verbatim>\<open>VaultManager.initialize\<close>. Nothing it calls throws, so its own \<^verbatim>\<open>catch\<close> block (log
  and rethrow) is never entered and the call always completes.
\<close>

definition initialize :: "platform \<Rightarrow> world \<Rightarrow> VaultManager \<Rightarrow> world \<times> VaultManager" where
  "initialize pl w m =
     (if initialized m then (w, m)
      else case isVaultInitialized pl w of (vaultInitialized, w1) \<Rightarrow>
        if vaultInitialized then
          (case getVaultConfig pl w1 of
             (Some wrapped, w2) \<Rightarrow>
               (w2, m\<lparr>secureVault := initializeWithWrappedDEK wrapped (secureVault m),
                       initialized := True\<rparr>)
           | (None, w2) \<Rightarrow> (w2, m\<lparr>initialized := True\<rparr>))
        else (w1, m\<lparr>initialized := True\<rparr>))"

text \<open>
  \<^verbatim>\<open>VaultManager.isFirstTimeUser\<close>. The result is a sum so that "the error is reported"
  can be stated; the \<^verbatim>\<open>catch\<close> block of the source returns \<^verbatim>\<open>true\<close>.
\<close>

definition isFirstTimeUser ::
    "platform \<Rightarrow> world \<Rightarrow> VaultManager \<Rightarrow> (exn + bool) \<times> world \<times> VaultManager" where
  "isFirstTimeUser pl w m =
     (case initialize pl w m of (w1, m1) \<Rightarrow>
      case isVaultInitialized pl w1 of (hasVaultConfig, w2) \<Rightarrow>
        (Inr (\<not> hasVaultConfig), w2, m1))"

section \<open>A small platform to run the model on\<close>

text \<open>
  The theorems below hold for every platform. To run them on concrete inputs the
  primitives are instantiated by small stand-ins: a counter as random source, a keyed
  checksum cipher (the data shifted by a byte that depends on key and nonce, followed by
  a 16-byte tag: the nonce shifted by a byte that depends on key and data) and byte sums
  as key derivation. The cipher decrypts what it encrypted, its output differs for
  different 12-byte nonces, and it rejects a wrong key, a changed nonce and a changed
  byte in the examples below.
\<close>

definition byteSum :: "bytes \<Rightarrow> byte" where
  "byteSum bs = foldr (+) bs 0"

definition refTag :: "bytes \<Rightarrow> bytes \<Rightarrow> bytes \<Rightarrow> bytes" where
  "refTag key nonce body =
     map (\<lambda>b. b + (byteSum key + byteSum body + 90)) (take 16 (nonce @ replicate 16 0))"

definition refEncrypt :: "bytes \<Rightarrow> bytes \<Rightarrow> bytes \<Rightarrow> bytes option" where
  "refEncrypt key nonce plain =
     (let body = map (\<lambda>b. b + (byteSum key + byteSum nonce + 1)) plain
      in Some (body @ refTag key nonce body))"

definition refDecrypt :: "bytes \<Rightarrow> bytes \<Rightarrow> bytes \<Rightarrow> bytes option" where
  "refDecrypt key nonce c =
     (if length c < 16 then None
      else (let body = take (length c - 16) c; tag = drop (length c - 16) c
            in if tag = refTag key nonce body
               then Some (map (\<lambda>b. b - (byteSum key + byteSum nonce + 1)) body)
               else None))"

definition refPbkdf2 :: "bytes \<Rightarrow> bytes \<Rightarrow> nat \<Rightarrow> bytes option" where
  "refPbkdf2 pass saltBytes iterations =
     Some ((byteSum pass + byteSum saltBytes + 17) # replicate 31 0)"

definition refArgon2 :: "jsstring \<Rightarrow> bytes \<Rightarrow> argon2_result" where
  "refArgon2 pass saltBytes =
     Hash ((byteSum (utf8Encode pass) + byteSum saltBytes + 99) # replicate 31 0)"

definition refPlatform :: platform where
  "refPlatform =
     \<lparr>entropy = (\<lambda>i. of_nat (7 * i + 3)),
      aesGcmEncrypt = refEncrypt,
      aesGcmDecrypt = refDecrypt,
      pbkdf2Sha256 = refPbkdf2,
      argon2Import = True,
      argon2Hash = refArgon2,
      maxArguments = 65535,
      dbResponse = (\<lambda>i. QueryError True)\<rparr>"

definition world0 :: world where
  "world0 = \<lparr>rngPos = 0, argon2Available = False, now = 0, notified = [], auditLog = [],
             dbCalls = 0\<rparr>"

text \<open>The passphrase \<^verbatim>\<open>CorrectHorseBattery9!\<close> and the plaintext \<^verbatim>\<open>secret-A\<close>.\<close>

definition passphrase0 :: jsstring where
  "passphrase0 = [67, 111, 114, 114, 101, 99, 116, 72, 111, 114, 115, 101, 66, 97, 116, 116,
                  101, 114, 121, 57, 33]"

definition secretA :: jsstring where
  "secretA = [115, 101, 99, 114, 101, 116, 45, 65]"

section \<open>Notions used in the statements and proofs\<close>

text \<open>The sextets of an encoding, without the padding.\<close>

fun encSextets :: "bytes \<Rightarrow> nat list" where
  "encSextets (a # b # c # rest) =
     (let n = unat a * 65536 + unat b * 256 + unat c in
      (n div 262144) # (n div 4096 mod 64) # (n div 64 mod 64) # (n mod 64) # encSextets rest)"
| "encSextets [a, b] =
     (let n = unat a * 1024 + unat b * 4 in [n div 4096, n div 64 mod 64, n mod 64])"
| "encSextets [a] = (let n = unat a * 16 in [n div 64, n mod 64])"
| "encSextets [] = []"

definition padCount :: "bytes \<Rightarrow> nat" where
  "padCount bs = (if length bs mod 3 = 0 then 0 else 3 - length bs mod 3)"

text \<open>The Unicode scalar values: the code points that are no surrogates.\<close>

definition isScalar :: "nat \<Rightarrow> bool" where
  "isScalar cp \<longleftrightarrow> cp < 0xD800 \<or> (0xE000 \<le> cp \<and> cp < 0x110000)"

text \<open>
  What the theorems ask of the platform. \<open>aeadCorrect\<close>: AES-GCM decrypts, under the same
  key and nonce, what it encrypted. \<open>consistent\<close>: the module variable \<^verbatim>\<open>argon2Available\<close>
  is set only where the import of the module succeeds; it holds when the page is loaded
  (the variable starts as \<^verbatim>\<open>false\<close>) and every operation keeps it.
\<close>

definition aeadCorrect :: "platform \<Rightarrow> bool" where
  "aeadCorrect pl \<longleftrightarrow>
     (\<forall>key nonce plain c.
        aesGcmEncrypt pl key nonce plain = Some c \<longrightarrow> aesGcmDecrypt pl key nonce c = Some plain)"

definition consistent :: "platform \<Rightarrow> world \<Rightarrow> bool" where
  "consistent pl w \<longleftrightarrow> (argon2Available w \<longrightarrow> argon2Import pl)"

text \<open>
  The invariant of C10: a vault that holds a DEK also holds a wrapped DEK.
\<close>

definition dekImpliesWrapped :: "SecureVault \<Rightarrow> bool" where
  "dekImpliesWrapped s \<longleftrightarrow> (dek s \<noteq> None \<longrightarrow> wrappedDEK s \<noteq> None)"

text \<open>
  The rows that \<^verbatim>\<open>getVaultConfig\<close> accepts as a vault configuration: an object with
  \<^verbatim>\<open>v === 1\<close> and truthy \<^verbatim>\<open>kdf\<close>, \<^verbatim>\<open>salt\<close>, \<^verbatim>\<open>iv\<close> and \<^verbatim>\<open>ct\<close> that is no placeholder.
\<close>

fun validRow :: "query_result \<Rightarrow> bool" where
  "validRow (QueryData (Some (DekObject ver (Some k) saltStr ivStr ctStr))) =
     (ver = 1 \<and> saltStr \<noteq> [] \<and> ivStr \<noteq> [] \<and> ctStr \<noteq> [])"
| "validRow r = False"

section \<open>Concrete inputs\<close>

text \<open>
  The values that the small platform produces for the passphrase and the plaintexts
  above, starting from \<open>world0\<close>: the first 16 random bytes (a salt), the next 12 (a
  nonce), the key derived from \<open>passphrase0\<close> and that salt, and the blobs that
  \<^verbatim>\<open>encryptString\<close> returns for \<open>secretA\<close> and for the one-character string U+FEFF.
\<close>

definition bomText :: jsstring where
  "bomText = [0xFEFF]"

definition salt0 :: bytes where
  "salt0 = [3, 10, 17, 24, 31, 38, 45, 52, 59, 66, 73, 80, 87, 94, 101, 108]"

definition iv0 :: bytes where
  "iv0 = [115, 122, 129, 136, 143, 150, 157, 164, 171, 178, 185, 192]"

definition key0 :: bytes where
  "key0 = 227 # replicate 31 0"

definition world28 :: world where
  "world28 = world0\<lparr>rngPos := 28, argon2Available := True\<rparr>"

definition ctSecretA :: bytes where
  "ctSecretA = [137, 123, 121, 136, 123, 138, 67, 87, 84, 91, 98, 105, 112, 119, 126, 133,
                140, 147, 154, 161, 225, 225, 225, 225]"

definition blobSecretA :: SecretBlobV1 where
  "blobSecretA =
     \<lparr>v = 1, kdf = Argon2id, salt = bufToBase64 salt0, iv = bufToBase64 iv0,
      ct = bufToBase64 ctSecretA\<rparr>"

definition blobBOM :: SecretBlobV1 where
  "blobBOM =
     \<lparr>v = 1, kdf = Argon2id, salt = bufToBase64 salt0, iv = bufToBase64 iv0,
      ct = bufToBase64 [5, 209, 213, 91, 98, 105, 112, 119, 126, 133, 140, 147, 154, 161,
                        168, 232, 232, 232, 232]\<rparr>"

text \<open>
  The run of the vault on the small platform: \<^verbatim>\<open>createNewVault\<close> with \<open>passphrase0\<close> in
  \<open>world0\<close> draws the DEK \<open>dek0\<close>, the salt \<open>saltV\<close> and the nonce \<open>ivV\<close>, derives
  \<open>key0\<close> again and returns \<open>wrapped0\<close>; the vault is then \<open>vault1\<close> in \<open>world60\<close>. Two
  calls of \<^verbatim>\<open>encrypt\<close> with \<open>secretA\<close> draw the nonces \<open>nonce1\<close> and \<open>nonce2\<close> and
  return \<open>blobV1\<close> and \<open>blobV2\<close>; \<open>blobVBOM\<close> is what the first of them returns for
  the string U+FEFF instead.
\<close>

definition dek0 :: bytes where
  "dek0 = [3, 10, 17, 24, 31, 38, 45, 52, 59, 66, 73, 80, 87, 94, 101, 108, 115, 122, 129,
           136, 143, 150, 157, 164, 171, 178, 185, 192, 199, 206, 213, 220]"

definition saltV :: bytes where
  "saltV = [227, 234, 241, 248, 255, 6, 13, 20, 27, 34, 41, 48, 55, 62, 69, 76]"

definition ivV :: bytes where
  "ivV = [83, 90, 97, 104, 111, 118, 125, 132, 139, 146, 153, 160]"

definition wrappedBytes0 :: bytes where
  "wrappedBytes0 =
     [153, 160, 167, 174, 181, 188, 195, 202, 209, 216, 223, 230, 237, 244, 251, 2, 9, 16,
      23, 30, 37, 44, 51, 58, 65, 72, 79, 86, 93, 100, 107, 114, 64, 71, 78, 85, 92, 99,
      106, 113, 120, 127, 134, 141, 237, 237, 237, 237]"

definition wrapped0 :: WrappedDEK where
  "wrapped0 =
     \<lparr>v = 1, kdf = Argon2id, salt = bufToBase64 saltV, iv = bufToBase64 ivV,
      ct = bufToBase64 wrappedBytes0\<rparr>"

definition world60 :: world where
  "world60 = world0\<lparr>rngPos := 60, argon2Available := True,
                    auditLog := [VaultUnlockLogged True]\<rparr>"

definition vault1 :: SecureVault where
  "vault1 =
     \<lparr>dek = Some dek0, wrappedDEK = Some wrapped0, autoLockTimeoutMs = 900000,
      autoLockTimer = Some 900000, lastActivity = Some 0, listeners = []\<rparr>"

definition nonce1 :: bytes where
  "nonce1 = [167, 174, 181, 188, 195, 202, 209, 216, 223, 230, 237, 244]"


definition ctV1 :: bytes where
  "ctV1 = [6, 248, 246, 5, 248, 7, 192, 212, 125, 132, 139, 146, 153, 160, 167, 174, 181,
           188, 195, 202, 214, 214, 214, 214]"

definition blobV1 :: SecretBlobV1 where
  "blobV1 =
     \<lparr>v = 1, kdf = Argon2id, salt = bufToBase64 saltV, iv = bufToBase64 nonce1,
      ct = bufToBase64 ctV1\<rparr>"


definition blobVBOM :: SecretBlobV1 where
  "blobVBOM =
     \<lparr>v = 1, kdf = Argon2id, salt = bufToBase64 saltV, iv = bufToBase64 nonce1,
      ct = bufToBase64 [130, 78, 82, 19, 26, 33, 40, 47, 54, 61, 68, 75, 82, 89, 96, 108,
                        108, 108, 108]\<rparr>"

definition world72 :: world where
  "world72 = world60\<lparr>rngPos := 72,
                      auditLog := [VaultUnlockLogged True, EncryptLogged True]\<rparr>"


text \<open>The world in which a copy of the wrapped DEK is loaded again, after unlocking.\<close>

definition worldR :: world where
  "worldR = world0\<lparr>argon2Available := True, auditLog := [VaultUnlockLogged True]\<rparr>"

text \<open>
  The same vault with two listeners registered, at the time its timeout fires.
\<close>

definition vaultL :: SecureVault where
  "vaultL = vault1\<lparr>listeners := [1, 2]\<rparr>"

definition worldT :: world where
  "worldT = world60\<lparr>now := 900000\<rparr>"


text \<open>
  Two variants of the small platform for the storage: one whose every query fails with a
  network error, and one whose storage holds the wrapped DEK \<open>wrapped0\<close>.
\<close>

definition offlinePlatform :: platform where
  "offlinePlatform = refPlatform\<lparr>dbResponse := (\<lambda>i. QueryThrows True)\<rparr>"

definition storedPlatform :: platform where
  "storedPlatform =
     refPlatform\<lparr>dbResponse :=
       (\<lambda>i. QueryData (Some (DekObject 1 (Some Argon2id) (salt wrapped0) (iv wrapped0)
                                (ct wrapped0))))\<rparr>"

text \<open>
  A platform on which the argon2 module cannot be loaded, so that keys are derived with
  PBKDF2, and the key that it derives from \<open>passphrase0\<close> (with \<open>salt0\<close> as with
  \<open>saltV\<close>).
\<close>

definition noArgon2Platform :: platform where
  "noArgon2Platform = refPlatform\<lparr>argon2Import := False\<rparr>"

definition keyPbkdf2 :: bytes where
  "keyPbkdf2 = 145 # replicate 31 0"



definition wrappedTampered :: WrappedDEK where
  "wrappedTampered = wrapped0\<lparr>ct := bufToBase64 (wrappedBytes0[0 := 152])\<rparr>"



definition vaultSwapped :: SecureVault where
  "vaultSwapped = vault1\<lparr>wrappedDEK := Some wrappedTampered\<rparr>"











section \<open>Properties of the encoding utilities\<close>

subsection \<open>Base64 round trip\<close>

lemma unat_byte_lt: "unat (a :: byte) < 256"
  using unsigned_less [of a, where ?'a = nat] by simp

lemma unat_code_unit_lt: "unat (c :: code_unit) < 65536"
  using unsigned_less [of c, where ?'a = nat] by simp

lemma unat_of_nat_byte: "n < 256 \<Longrightarrow> unat (of_nat n :: byte) = n"
  by (simp add: unat_of_nat)

lemma ucast_byte_roundtrip: "ucast (ucast (b :: byte) :: code_unit) = b"
  by (rule ucast_up_ucast_id) (simp add: is_up)

lemma unat_ucast_byte: "unat (ucast (b :: byte) :: code_unit) = unat b"
proof -
  have "unat b < 2 ^ 16" using unat_byte_lt [of b] by simp
  then show ?thesis by (simp add: unsigned_ucast_eq take_bit_nat_eq_self)
qed

lemma b64val_b64char: "n < 64 \<Longrightarrow> b64val (b64char n) = Some n"
  by (auto simp: b64val_def b64char_def unat_of_nat Let_def)

lemma b64char_not_pad: "n < 64 \<Longrightarrow> b64char n \<noteq> padChar"
  by (auto simp: b64char_def padChar_def word_eq_iff_unsigned [where ?'a = nat] unat_of_nat)

lemma b64char_not_ws: "n < 64 \<Longrightarrow> \<not> asciiWhitespace (b64char n)"
  by (auto simp: b64char_def asciiWhitespace_def word_eq_iff_unsigned [where ?'a = nat]
      unat_of_nat)

lemma pad_not_ws: "\<not> asciiWhitespace padChar"
  by (simp add: asciiWhitespace_def padChar_def)

lemma encSextets_lt: "\<forall>s \<in> set (encSextets bs). s < 64"
proof (induction bs rule: encSextets.induct)
  case (1 a b c rest)
  have "unat a * 65536 + unat b * 256 + unat c < 16777216"
    using unat_byte_lt [of a] unat_byte_lt [of b] unat_byte_lt [of c] by linarith
  then have "(unat a * 65536 + unat b * 256 + unat c) div 262144 < 64" by simp
  with 1 show ?case by (simp add: Let_def)
next
  case (2 a b)
  have "unat a * 1024 + unat b * 4 < 262144"
    using unat_byte_lt [of a] unat_byte_lt [of b] by linarith
  then have "(unat a * 1024 + unat b * 4) div 4096 < 64" by simp
  then show ?case by (simp add: Let_def)
next
  case (3 a)
  have "unat a * 16 < 4096" using unat_byte_lt [of a] by linarith
  then have "(unat a * 16) div 64 < 64" by simp
  then show ?case by (simp add: Let_def)
qed simp

lemma base64_encode_shape:
  "base64_encode bs = map b64char (encSextets bs) @ replicate (padCount bs) padChar"
proof (induction bs rule: encSextets.induct)
  case (1 a b c rest)
  have "padCount (a # b # c # rest) = padCount rest"
    by (simp add: padCount_def)
  with 1 show ?case by (simp add: Let_def)
qed (simp_all add: padCount_def Let_def numeral_2_eq_2)

lemma split_sextets4:
  "(n::nat) div 262144 * 262144 + n div 4096 mod 64 * 4096 + n div 64 mod 64 * 64 + n mod 64 = n"
proof -
  have a: "n div 4096 = n div 64 div 64" by (simp add: div_mult2_eq [symmetric])
  have b: "n div 262144 = n div 64 div 64 div 64" by (simp add: div_mult2_eq [symmetric])
  show ?thesis
    unfolding a b
    using div_mult_mod_eq [of n 64] div_mult_mod_eq [of "n div 64" 64]
      div_mult_mod_eq [of "n div 64 div 64" 64]
    by linarith
qed

lemma split_sextets3:
  "(n::nat) div 4096 * 4096 + n div 64 mod 64 * 64 + n mod 64 = n"
proof -
  have a: "n div 4096 = n div 64 div 64" by (simp add: div_mult2_eq [symmetric])
  show ?thesis
    unfolding a
    using div_mult_mod_eq [of n 64] div_mult_mod_eq [of "n div 64" 64]
    by linarith
qed

lemma three_bytes:
  assumes "b < 256" "c < (256::nat)"
  shows "(a * 65536 + b * 256 + c) div 65536 = a"
    and "(a * 65536 + b * 256 + c) div 256 mod 256 = b"
    and "(a * 65536 + b * 256 + c) mod 256 = c"
proof -
  have "b * 256 + c < 65536" using assms by linarith
  then show "(a * 65536 + b * 256 + c) div 65536 = a" by (simp add: add.assoc)
  have e: "a * 65536 + b * 256 + c = (a * 256 + b) * 256 + c" by simp
  have "((a * 256 + b) * 256 + c) div 256 = a * 256 + b" using assms by simp
  then have d: "(a * 65536 + b * 256 + c) div 256 = a * 256 + b" by (simp only: e)
  show "(a * 65536 + b * 256 + c) div 256 mod 256 = b" unfolding d using assms by simp
  have "((a * 256 + b) * 256 + c) mod 256 = c" by (simp only: mod_mult_self3 mod_less assms)
  then show "(a * 65536 + b * 256 + c) mod 256 = c" by (simp only: e)
qed

lemma two_bytes:
  assumes "b < (256::nat)"
  shows "(a * 1024 + b * 4) div 1024 = a" and "(a * 1024 + b * 4) div 4 mod 256 = b"
proof -
  have "b * 4 < 1024" using assms by linarith
  then show "(a * 1024 + b * 4) div 1024 = a" by simp
  have "a * 1024 + b * 4 = (a * 256 + b) * 4" by simp
  then have "(a * 1024 + b * 4) div 4 = a * 256 + b" by simp
  then show "(a * 1024 + b * 4) div 4 mod 256 = b" using assms by simp
qed

lemma sextetsToBytes_encSextets: "sextetsToBytes (encSextets bs) = bs"
proof (induction bs rule: encSextets.induct)
  case (1 a b c rest)
  define n where "n = unat a * 65536 + unat b * 256 + unat c"
  have b: "unat b < 256" and c: "unat c < 256"
    by (rule unat_byte_lt)+
  have "n div 65536 = unat a" "n div 256 mod 256 = unat b" "n mod 256 = unat c"
    unfolding n_def using three_bytes [OF b c] by auto
  then show ?case using 1 split_sextets4 [of n]
    by (simp add: Let_def n_def [symmetric])
next
  case (2 a b)
  define n where "n = unat a * 1024 + unat b * 4"
  have b: "unat b < 256" by (rule unat_byte_lt)
  have "n div 1024 = unat a" "n div 4 mod 256 = unat b"
    unfolding n_def using two_bytes [OF b] by auto
  then show ?case using split_sextets3 [of n] by (simp add: Let_def n_def [symmetric])
next
  case (3 a)
  define n where "n = unat a * 16"
  have "n div 16 = unat a" unfolding n_def by simp
  then show ?case using div_mult_mod_eq [of n 64] by (simp add: Let_def n_def [symmetric])
qed simp

lemma sextets_map_b64char: "\<forall>s \<in> set ss. s < 64 \<Longrightarrow> sextets (map b64char ss) = Some ss"
  by (induction ss) (simp_all add: b64val_b64char)

lemma encSextets_length: "(length (encSextets bs) + padCount bs) mod 4 = 0"
proof (induction bs rule: encSextets.induct)
  case (1 a b c rest)
  have "padCount (a # b # c # rest) = padCount rest" by (simp add: padCount_def)
  with 1 show ?case by (simp add: Let_def)
qed (simp_all add: padCount_def Let_def)

lemma padCount_cases: "padCount bs = 0 \<or> padCount bs = 1 \<or> padCount bs = 2"
  unfolding padCount_def by presburger

lemma last_map_b64char:
  "ss \<noteq> [] \<Longrightarrow> \<forall>s \<in> set ss. s < 64 \<Longrightarrow> last (map b64char ss) \<noteq> padChar"
  by (simp add: last_map b64char_not_pad)

lemma mod4_pad1: "(n + 1) mod 4 = 0 \<Longrightarrow> n mod 4 = (3::nat)"
  by presburger

lemma mod4_pad2: "(n + 2) mod 4 = 0 \<Longrightarrow> n mod 4 = (2::nat)"
  by presburger

lemma stripPadding_two:
  "length xs mod 4 = 2 \<Longrightarrow> stripPadding (xs @ [padChar, padChar]) = xs"
proof -
  assume "length xs mod 4 = 2"
  then have l: "length (xs @ [padChar, padChar]) mod 4 = 0" by (simp add: mod_Suc)
  have b: "butlast (xs @ [padChar, padChar]) = xs @ [padChar]" by (simp add: butlast_append)
  show ?thesis unfolding stripPadding_def using l by (simp only: b) simp
qed

lemma stripPadding_one:
  "length xs mod 4 = 3 \<Longrightarrow> last xs \<noteq> padChar \<Longrightarrow> stripPadding (xs @ [padChar]) = xs"
proof -
  assume a: "length xs mod 4 = 3" and n: "last xs \<noteq> padChar"
  from a have ne: "xs \<noteq> []" by auto
  from a have l: "length (xs @ [padChar]) mod 4 = 0" by (simp add: mod_Suc)
  show ?thesis unfolding stripPadding_def using l n ne by simp
qed

lemma stripPadding_none:
  "xs = [] \<or> last xs \<noteq> padChar \<Longrightarrow> stripPadding xs = xs"
  by (auto simp: stripPadding_def)

lemma stripPadding_encode:
  "stripPadding (base64_encode bs) = map b64char (encSextets bs)"
proof -
  let ?body = "map b64char (encSextets bs)"
  have lt: "\<forall>s \<in> set (encSextets bs). s < 64" by (rule encSextets_lt)
  have len: "(length ?body + padCount bs) mod 4 = 0" using encSextets_length [of bs] by simp
  have nolast: "?body = [] \<or> last ?body \<noteq> padChar"
    using last_map_b64char [OF _ lt] by auto
  consider "padCount bs = 0" | "padCount bs = 1" | "padCount bs = 2"
    using padCount_cases [of bs] by auto
  then show ?thesis
  proof cases
    case 1
    then have "base64_encode bs = ?body" by (simp add: base64_encode_shape)
    then show ?thesis using stripPadding_none [OF nolast] by simp
  next
    case 2
    then have e: "base64_encode bs = ?body @ [padChar]" by (simp add: base64_encode_shape)
    have l: "length ?body mod 4 = 3" by (rule mod4_pad1) (use len 2 in simp)
    then have "?body \<noteq> []" by auto
    with nolast have "last ?body \<noteq> padChar" by blast
    from stripPadding_one [OF l this] show ?thesis unfolding e .
  next
    case 3
    then have e: "base64_encode bs = ?body @ [padChar, padChar]"
      by (simp add: base64_encode_shape numeral_2_eq_2)
    have l: "length ?body mod 4 = 2" by (rule mod4_pad2) (use len 3 in simp)
    from stripPadding_two [OF l] show ?thesis unfolding e .
  qed
qed

lemma filter_ws_encode:
  "filter (\<lambda>c. \<not> asciiWhitespace c) (base64_encode bs) = base64_encode bs"
proof -
  have "\<forall>c \<in> set (base64_encode bs). \<not> asciiWhitespace c"
    using encSextets_lt [of bs]
    by (auto simp: base64_encode_shape b64char_not_ws pad_not_ws)
  then show ?thesis by (simp add: filter_id_conv)
qed

lemma encSextets_length_not1: "length (encSextets bs) mod 4 \<noteq> 1"
  using encSextets_length [of bs] padCount_cases [of bs] by presburger

lemma base64_roundtrip: "base64ToBuf (bufToBase64 bs) = Inr bs"
proof -
  have "atob (base64_encode bs) = Inr (map ucast bs)"
    using encSextets_length_not1 [of bs]
    by (simp add: atob_def filter_ws_encode stripPadding_encode
        sextets_map_b64char [OF encSextets_lt] sextetsToBytes_encSextets)
  then show ?thesis
    by (simp add: base64ToBuf_def bufToBase64_def ucast_byte_roundtrip comp_def)
qed


lemma bufToBase64_inj: "bufToBase64 a = bufToBase64 b \<longleftrightarrow> a = b"
  by (metis base64_roundtrip sum.inject(2))

text \<open>The binary string that \<^verbatim>\<open>bufToBase64\<close> hands to \<^verbatim>\<open>btoa\<close> is accepted by it.\<close>

lemma btoa_binaryString: "btoa (map ucast (buf :: bytes)) = Inr (bufToBase64 buf)"
proof -
  have "\<not> 255 < (ucast (b :: byte) :: code_unit)" for b
    using unat_byte_lt [of b] by (simp add: word_less_nat_alt unat_ucast_byte)
  then show ?thesis
    by (auto simp: btoa_def bufToBase64_def ucast_byte_roundtrip comp_def)
qed

subsection \<open>UTF-8 round trip\<close>

lemma lead_mods:
  "a < 32 \<Longrightarrow> (192 + a) mod 32 = (a::nat)"
  "a < 16 \<Longrightarrow> (224 + a) mod 16 = (a::nat)"
  "a < 8 \<Longrightarrow> (240 + a) mod 8 = (a::nat)"
  "a < 64 \<Longrightarrow> (128 + a) mod 64 = (a::nat)"
  using mod_mult_self4 [of 32 6 a] mod_mult_self4 [of 16 14 a] mod_mult_self4 [of 8 30 a]
    mod_mult_self4 [of 64 2 a]
  by simp_all

lemma decode_scalar1:
  assumes "cp < 0x80"
  shows "utf8DecodeFrom utf8Init (utf8EncodeScalar cp @ rest) = cp # utf8DecodeFrom utf8Init rest"
  using assms by (simp add: utf8EncodeScalar_def utf8Init_def utf8Lead_def unat_of_nat_byte)

lemma decode_scalar2:
  assumes "0x80 \<le> cp" "cp < 0x800"
  shows "utf8DecodeFrom utf8Init (utf8EncodeScalar cp @ rest) = cp # utf8DecodeFrom utf8Init rest"
proof -
  define a where "a = cp div 64"
  define b where "b = cp mod 64"
  define b1 :: byte where "b1 = of_nat (0xC0 + a)"
  define b2 :: byte where "b2 = of_nat (0x80 + b)"
  have cp: "cp = a * 64 + b" and b: "b < 64" by (simp_all add: a_def b_def)
  have a: "2 \<le> a" "a < 32" using assms by (simp_all add: a_def less_mult_imp_div_less)
  have u1: "unat b1 = 0xC0 + a" unfolding b1_def by (rule unat_of_nat_byte) (use a in simp)
  have u2: "unat b2 = 0x80 + b" unfolding b2_def by (rule unat_of_nat_byte) (use b in simp)
  have l: "utf8Lead (0xC0 + a) = ([], (a, 1, 0x80, 0xBF))"
    using a by (simp add: utf8Lead_def lead_mods)
  have e: "utf8EncodeScalar cp = [b1, b2]"
    using assms by (simp add: utf8EncodeScalar_def a_def b_def b1_def b2_def)
  show ?thesis
    unfolding e using b by (simp add: utf8Init_def u1 u2 l cp lead_mods)
qed

lemma decode_scalar3:
  assumes "0x800 \<le> cp" "cp < 0x10000" "cp < 0xD800 \<or> 0xE000 \<le> cp"
  shows "utf8DecodeFrom utf8Init (utf8EncodeScalar cp @ rest) = cp # utf8DecodeFrom utf8Init rest"
proof -
  define a where "a = cp div 64 div 64"
  define b where "b = cp div 64 mod 64"
  define c where "c = cp mod 64"
  define b1 :: byte where "b1 = of_nat (0xE0 + a)"
  define b2 :: byte where "b2 = of_nat (0x80 + b)"
  define b3 :: byte where "b3 = of_nat (0x80 + c)"
  have cp: "cp = (a * 64 + b) * 64 + c" and b: "b < 64" and c: "c < 64"
    by (simp_all add: a_def b_def c_def)
  have a: "a < 16" using assms by (simp add: a_def less_mult_imp_div_less)
  have a0: "a = 0 \<Longrightarrow> 32 \<le> b" using assms(1) unfolding cp using c by simp
  have a13: "a = 13 \<Longrightarrow> b < 32" using assms(3,2) unfolding cp using c b by simp
  have u1: "unat b1 = 0xE0 + a" unfolding b1_def by (rule unat_of_nat_byte) (use a in simp)
  have u2: "unat b2 = 0x80 + b" unfolding b2_def by (rule unat_of_nat_byte) (use b in simp)
  have u3: "unat b3 = 0x80 + c" unfolding b3_def by (rule unat_of_nat_byte) (use c in simp)
  have l: "utf8Lead (0xE0 + a) =
      ([], (a, 2, if a = 0 then 0xA0 else 0x80, if a = 13 then 0x9F else 0xBF))"
    using a by (simp add: utf8Lead_def lead_mods)
  have e: "utf8EncodeScalar cp = [b1, b2, b3]"
    using assms by (simp add: utf8EncodeScalar_def a_def b_def c_def b1_def b2_def b3_def)
  show ?thesis
    unfolding e using b c a0 a13 by (simp add: utf8Init_def u1 u2 u3 l lead_mods) (auto simp: cp)
qed

lemma decode_scalar4:
  assumes "0x10000 \<le> cp" "cp < 0x110000"
  shows "utf8DecodeFrom utf8Init (utf8EncodeScalar cp @ rest) = cp # utf8DecodeFrom utf8Init rest"
proof -
  define a where "a = cp div 64 div 64 div 64"
  define b where "b = cp div 64 div 64 mod 64"
  define c where "c = cp div 64 mod 64"
  define d where "d = cp mod 64"
  define b1 :: byte where "b1 = of_nat (0xF0 + a)"
  define b2 :: byte where "b2 = of_nat (0x80 + b)"
  define b3 :: byte where "b3 = of_nat (0x80 + c)"
  define b4 :: byte where "b4 = of_nat (0x80 + d)"
  have cp: "cp = ((a * 64 + b) * 64 + c) * 64 + d"
    and b: "b < 64" and c: "c < 64" and d: "d < 64"
    by (simp_all add: a_def b_def c_def d_def)
  have a: "a < 5" using assms by (simp add: a_def less_mult_imp_div_less)
  have a0: "a = 0 \<Longrightarrow> 16 \<le> b" using assms(1) unfolding cp using c d by simp
  have a4: "a = 4 \<Longrightarrow> b < 16" using assms(2) unfolding cp using c d by simp
  have u1: "unat b1 = 0xF0 + a" unfolding b1_def by (rule unat_of_nat_byte) (use a in simp)
  have u2: "unat b2 = 0x80 + b" unfolding b2_def by (rule unat_of_nat_byte) (use b in simp)
  have u3: "unat b3 = 0x80 + c" unfolding b3_def by (rule unat_of_nat_byte) (use c in simp)
  have u4: "unat b4 = 0x80 + d" unfolding b4_def by (rule unat_of_nat_byte) (use d in simp)
  have l: "utf8Lead (0xF0 + a) =
      ([], (a, 3, if a = 0 then 0x90 else 0x80, if a = 4 then 0x8F else 0xBF))"
    using a by (simp add: utf8Lead_def lead_mods)
  have e: "utf8EncodeScalar cp = [b1, b2, b3, b4]"
    using assms
    by (simp add: utf8EncodeScalar_def a_def b_def c_def d_def b1_def b2_def b3_def b4_def)
  show ?thesis
    unfolding e using b c d a0 a4
    by (simp add: utf8Init_def u1 u2 u3 u4 l lead_mods) (auto simp: cp)
qed

lemma decode_scalar:
  "isScalar cp \<Longrightarrow>
   utf8DecodeFrom utf8Init (utf8EncodeScalar cp @ rest) = cp # utf8DecodeFrom utf8Init rest"
  using decode_scalar1 [of cp rest] decode_scalar2 [of cp rest] decode_scalar3 [of cp rest]
    decode_scalar4 [of cp rest]
  unfolding isScalar_def by linarith

lemma pair_scalar:
  assumes "isLead c" "isTrail d"
  shows "isScalar (0x10000 + (unat c - 0xD800) * 1024 + (unat d - 0xDC00))"
  using assms unfolding isLead_def isTrail_def isScalar_def by linarith

lemma toScalars_scalar: "\<forall>cp \<in> set (toScalars s). isScalar cp"
proof (induction s rule: toScalars.induct)
  case 1
  then show ?case by simp
next
  case (2 c)
  show ?case using unat_code_unit_lt [of c]
    by (auto simp: isScalar_def isLead_def isTrail_def)
next
  case (3 c d cs)
  have "\<not> isLead c \<Longrightarrow> \<not> isTrail c \<Longrightarrow> isScalar (unat c)"
    using unat_code_unit_lt [of c] by (auto simp: isScalar_def isLead_def isTrail_def)
  moreover have "isScalar 0xFFFD" by (simp add: isScalar_def)
  ultimately show ?case using 3 pair_scalar [of c d] by auto
qed

lemma decode_scalars:
  "\<forall>cp \<in> set cps. isScalar cp \<Longrightarrow>
   utf8DecodeFrom utf8Init (concat (map utf8EncodeScalar cps)) = cps"
  by (induction cps) (simp add: utf8Init_def, simp add: decode_scalar)

lemma decode_encode_scalars: "utf8DecodeFrom utf8Init (utf8Encode s) = toScalars s"
  unfolding utf8Encode_def by (rule decode_scalars) (rule toScalars_scalar)

lemma toUtf16_bmp: "\<not> isLead c \<Longrightarrow> \<not> isTrail c \<Longrightarrow> toUtf16 (unat c) = [c]"
  using unat_code_unit_lt [of c] by (simp add: toUtf16_def)

lemma toUtf16_pair:
  assumes "isLead c" "isTrail d"
  shows "toUtf16 (0x10000 + (unat c - 0xD800) * 1024 + (unat d - 0xDC00)) = [c, d]"
proof -
  define h where "h = unat c - 0xD800"
  define l where "l = unat d - 0xDC00"
  have l: "l < 1024" and c: "0xD800 + h = unat c" and d: "0xDC00 + l = unat d"
    using assms unfolding isLead_def isTrail_def h_def l_def by linarith+
  have "(h * 1024 + l) div 1024 = h" "(h * 1024 + l) mod 1024 = l" using l by simp_all
  then have "toUtf16 (0x10000 + h * 1024 + l) = [of_nat (0xD800 + h), of_nat (0xDC00 + l)]"
    by (simp add: toUtf16_def add.assoc)
  then show ?thesis unfolding c d unfolding h_def l_def by simp
qed

lemma wellFormed_utf16: "wellFormed s \<Longrightarrow> concat (map toUtf16 (toScalars s)) = s"
proof (induction s rule: toScalars.induct)
  case 1
  then show ?case by simp
next
  case (2 c)
  then show ?case by (simp add: toUtf16_bmp)
next
  case (3 c d cs)
  then show ?case by (auto simp: toUtf16_bmp toUtf16_pair split: if_splits)
qed

lemma stripBOM_toScalars: "\<not> startsWithBOM s \<Longrightarrow> stripBOM (toScalars s) = toScalars s"
proof (cases s rule: toScalars.cases)
  case 1
  then show ?thesis by (simp add: stripBOM_def)
next
  case (2 c)
  assume "\<not> startsWithBOM s"
  with 2 have "c \<noteq> 0xFEFF" by (simp add: startsWithBOM_def)
  then have "unat c \<noteq> 0xFEFF" by (simp add: word_unat_eq_iff)
  with 2 show ?thesis by (simp add: stripBOM_def)
next
  case (3 c d cs)
  assume "\<not> startsWithBOM s"
  with 3 have "c \<noteq> 0xFEFF" by (simp add: startsWithBOM_def)
  then have "unat c \<noteq> 0xFEFF" by (simp add: word_unat_eq_iff)
  with 3 show ?thesis by (simp add: stripBOM_def)
qed

lemma utf8_roundtrip:
  "wellFormed s \<Longrightarrow> \<not> startsWithBOM s \<Longrightarrow> utf8Decode (utf8Encode s) = s"
  by (simp add: utf8Decode_def decode_encode_scalars stripBOM_toScalars wellFormed_utf16)

section \<open>Properties of the cipher module\<close>

subsection \<open>Key derivation\<close>

lemma randomBytes_flag [simp]:
  "argon2Available (snd (randomBytes pl n w)) = argon2Available w"
  by (simp add: randomBytes_def)

lemma randomBytes_consistent [simp]:
  "consistent pl (snd (randomBytes pl n w)) = consistent pl w"
  by (simp add: consistent_def)

lemma deriveKey_consistent:
  "consistent pl w \<Longrightarrow> consistent pl (snd (deriveKey pl p saltBytes w))"
  by (auto simp: consistent_def deriveKey_def deriveKeyArgon2_def Let_def
      split: sum.splits argon2_result.splits prod.splits)

text \<open>
  In a consistent world the derived key and its tag depend on the platform, the
  passphrase and the salt only.
\<close>

lemma deriveKey_deterministic:
  assumes "consistent pl w" "consistent pl w'"
  shows "fst (deriveKey pl p saltBytes w) = fst (deriveKey pl p saltBytes w')"
proof (cases "argon2Import pl")
  case True
  then show ?thesis
    by (simp add: deriveKey_def deriveKeyArgon2_def Let_def
        split: sum.splits argon2_result.splits prod.splits)
next
  case False
  with assms have "\<not> argon2Available w" "\<not> argon2Available w'"
    by (auto simp: consistent_def)
  with False show ?thesis
    by (simp add: deriveKey_def deriveKeyArgon2_def Let_def
        split: sum.splits argon2_result.splits prod.splits)
qed

subsection \<open>Encryption and decryption of a string\<close>

lemma consistent_rngPos [simp]: "consistent pl (w\<lparr>rngPos := n\<rparr>) = consistent pl w"
  by (simp add: consistent_def)

lemma encryptString_Inr:
  assumes "encryptString pl p plaintext w = (Inr blob, w1)"
  obtains saltBytes ivBytes w2 key kdfUsed c where
    "randomBytes pl SALT_LENGTH w = (saltBytes, w2)"
    "ivBytes = fst (randomBytes pl IV_LENGTH w2)"
    "fst (deriveKey pl p saltBytes (snd (randomBytes pl IV_LENGTH w2))) = Inr (key, kdfUsed)"
    "aesGcmEncrypt pl key ivBytes (utf8Encode plaintext) = Some c"
    "blob = \<lparr>v = 1, kdf = kdfUsed, salt = bufToBase64 saltBytes,
             iv = bufToBase64 ivBytes, ct = bufToBase64 c\<rparr>"
  using assms unfolding encryptString_def
  by (auto split: prod.splits sum.splits option.splits)

lemma decryptString_of_parts:
  assumes "fst (deriveKey pl p saltBytes w) = Inr (key, kdfUsed)"
    and "aesGcmDecrypt pl key ivBytes c = Some plain"
  shows "fst (decryptString pl p
            \<lparr>v = 1, kdf = t, salt = bufToBase64 saltBytes, iv = bufToBase64 ivBytes,
             ct = bufToBase64 c\<rparr> w) = Inr (utf8Decode plain)"
  using assms
  by (auto simp: decryptString_def base64_roundtrip split: prod.splits sum.splits)

text \<open>
  Decrypting what \<^verbatim>\<open>encryptString\<close> produced yields the plaintext after one pass through
  the UTF-8 codec.
\<close>

lemma decrypt_encryptString:
  assumes "aeadCorrect pl" "consistent pl w" "consistent pl w'"
    and "encryptString pl p plaintext w = (Inr blob, w1)"
  shows "fst (decryptString pl p blob w') = Inr (utf8Decode (utf8Encode plaintext))"
proof -
  from assms(4) obtain saltBytes ivBytes w2 key kdfUsed c where
    r: "randomBytes pl SALT_LENGTH w = (saltBytes, w2)"
    and k: "fst (deriveKey pl p saltBytes (snd (randomBytes pl IV_LENGTH w2)))
        = Inr (key, kdfUsed)"
    and e: "aesGcmEncrypt pl key ivBytes (utf8Encode plaintext) = Some c"
    and b: "blob = \<lparr>v = 1, kdf = kdfUsed, salt = bufToBase64 saltBytes,
             iv = bufToBase64 ivBytes, ct = bufToBase64 c\<rparr>"
    by (rule encryptString_Inr)
  have "w2 = snd (randomBytes pl SALT_LENGTH w)" using r by simp
  then have "consistent pl (snd (randomBytes pl IV_LENGTH w2))" using assms(2) by simp
  from deriveKey_deterministic [OF assms(3) this] k
  have k': "fst (deriveKey pl p saltBytes w') = Inr (key, kdfUsed)" by simp
  from assms(1) e have d: "aesGcmDecrypt pl key ivBytes c = Some (utf8Encode plaintext)"
    by (simp add: aeadCorrect_def)
  show ?thesis unfolding b by (rule decryptString_of_parts [OF k' d])
qed

section \<open>The small platform at the concrete inputs\<close>

lemma refTag_length: "length (refTag key nonce body) = 16"
  by (simp add: refTag_def)

lemma refDecrypt_refEncrypt:
  "refEncrypt key nonce plain = Some c \<Longrightarrow> refDecrypt key nonce c = Some plain"
  by (auto simp: refEncrypt_def refDecrypt_def refTag_length Let_def comp_def)

lemma aeadCorrect_ref: "aeadCorrect refPlatform"
  by (simp add: aeadCorrect_def refPlatform_def refDecrypt_refEncrypt)

lemma consistent_ref: "consistent refPlatform w"
  by (simp add: consistent_def refPlatform_def)

lemma deriveKey_ref:
  "deriveKey refPlatform p saltBytes w =
     (Inr ((byteSum (utf8Encode p) + byteSum saltBytes + 99) # replicate 31 0, Argon2id),
      w\<lparr>argon2Available := True\<rparr>)"
  by (simp add: deriveKey_def deriveKeyArgon2_def refPlatform_def refArgon2_def importAesKey_def)

lemma utf8Encode_passphrase0:
  "utf8Encode passphrase0 =
     [67, 111, 114, 114, 101, 99, 116, 72, 111, 114, 115, 101, 66, 97, 116, 116, 101, 114,
      121, 57, 33]"
  by (simp add: utf8Encode_def passphrase0_def utf8EncodeScalar_def isLead_def isTrail_def)

lemma utf8Encode_secretA: "utf8Encode secretA = [115, 101, 99, 114, 101, 116, 45, 65]"
  by (simp add: utf8Encode_def secretA_def utf8EncodeScalar_def isLead_def isTrail_def)

lemma utf8Encode_bomText: "utf8Encode bomText = [239, 187, 191]"
  by (simp add: utf8Encode_def bomText_def utf8EncodeScalar_def isLead_def isTrail_def)

lemma utf8Decode_bom: "utf8Decode [239, 187, 191] = []"
  by (simp add: utf8Decode_def utf8Init_def utf8Lead_def stripBOM_def)

lemma randomBytes_salt0:
  "randomBytes refPlatform SALT_LENGTH world0 = (salt0, world0\<lparr>rngPos := 16\<rparr>)"
  by (simp add: randomBytes_def refPlatform_def world0_def salt0_def SALT_LENGTH_def upt_rec)

lemma randomBytes_iv0:
  "randomBytes refPlatform IV_LENGTH (world0\<lparr>rngPos := 16\<rparr>) =
     (iv0, world0\<lparr>rngPos := 28\<rparr>)"
  by (simp add: randomBytes_def refPlatform_def world0_def iv0_def IV_LENGTH_def upt_rec)

lemma deriveKey_key0:
  "deriveKey refPlatform passphrase0 salt0 w =
     (Inr (key0, Argon2id), w\<lparr>argon2Available := True\<rparr>)"
  by (simp add: deriveKey_ref utf8Encode_passphrase0 salt0_def byteSum_def key0_def)

lemma byteSum_replicate0: "byteSum (replicate n 0) = 0"
  by (induction n) (simp_all add: byteSum_def)

lemma byteSum_Nil: "byteSum [] = 0"
  by (simp add: byteSum_def)

lemma byteSum_Cons: "byteSum (b # bs) = b + byteSum bs"
  by (simp add: byteSum_def)

lemma byteSum_key0: "byteSum key0 = 227"
  by (simp add: key0_def byteSum_Cons byteSum_replicate0)

lemma ref_fields:
  "aesGcmEncrypt refPlatform = refEncrypt"
  "aesGcmDecrypt refPlatform = refDecrypt"
  "argon2Import refPlatform = True"
  "maxArguments refPlatform = 65535"
  by (simp_all add: refPlatform_def)

lemma byteSum_iv0: "byteSum iv0 = 50"
  by (simp add: iv0_def byteSum_def)

lemma replicate16: "replicate 16 x = [x, x, x, x, x, x, x, x, x, x, x, x, x, x, x, x]"
  by (simp add: numeral_eq_Suc)

lemma refTag_12:
  "refTag key [n1, n2, n3, n4, n5, n6, n7, n8, n9, n10, n11, n12] body =
     map (\<lambda>b. b + (byteSum key + byteSum body + 90))
       [n1, n2, n3, n4, n5, n6, n7, n8, n9, n10, n11, n12, 0, 0, 0, 0]"
  by (simp add: refTag_def replicate16)

lemma refEncrypt_secretA: "refEncrypt key0 iv0 (utf8Encode secretA) = Some ctSecretA"
  by (simp add: refEncrypt_def byteSum_key0 byteSum_iv0 utf8Encode_secretA ctSecretA_def)
    (simp add: iv0_def refTag_12 byteSum_key0 byteSum_Nil byteSum_Cons)

lemma refEncrypt_bomText:
  "refEncrypt key0 iv0 (utf8Encode bomText) =
     Some [5, 209, 213, 91, 98, 105, 112, 119, 126, 133, 140, 147, 154, 161, 168, 232, 232,
           232, 232]"
  by (simp add: refEncrypt_def byteSum_key0 byteSum_iv0 utf8Encode_bomText)
    (simp add: iv0_def refTag_12 byteSum_key0 byteSum_Nil byteSum_Cons)

lemma encryptString_secretA:
  "encryptString refPlatform passphrase0 secretA world0 = (Inr blobSecretA, world28)"
  by (simp add: encryptString_def randomBytes_salt0 randomBytes_iv0 deriveKey_key0
      ref_fields refEncrypt_secretA blobSecretA_def world28_def)

lemma encryptString_bomText:
  "encryptString refPlatform passphrase0 bomText world0 = (Inr blobBOM, world28)"
  by (simp add: encryptString_def randomBytes_salt0 randomBytes_iv0 deriveKey_key0
      ref_fields refEncrypt_bomText blobBOM_def world28_def)

lemma wellFormed_secretA: "wellFormed secretA \<and> \<not> startsWithBOM secretA"
  by (simp add: secretA_def startsWithBOM_def isLead_def isTrail_def)

section \<open>Properties of the vault core\<close>

lemma clearAutoLockTimer_fields [simp]:
  "dek (clearAutoLockTimer s) = dek s"
  "wrappedDEK (clearAutoLockTimer s) = wrappedDEK s"
  "listeners (clearAutoLockTimer s) = listeners s"
  "lastActivity (clearAutoLockTimer s) = lastActivity s"
  "autoLockTimeoutMs (clearAutoLockTimer s) = autoLockTimeoutMs s"
  "autoLockTimer (clearAutoLockTimer s) = None"
  by (simp_all add: clearAutoLockTimer_def split: option.splits)

lemma resetAutoLockTimer_fields [simp]:
  "dek (resetAutoLockTimer w s) = dek s"
  "wrappedDEK (resetAutoLockTimer w s) = wrappedDEK s"
  "listeners (resetAutoLockTimer w s) = listeners s"
  "lastActivity (resetAutoLockTimer w s) = lastActivity s"
  "autoLockTimeoutMs (resetAutoLockTimer w s) = autoLockTimeoutMs s"
  by (simp_all add: resetAutoLockTimer_def Let_def)

lemma updateActivity_fields [simp]:
  "dek (updateActivity w s) = dek s"
  "wrappedDEK (updateActivity w s) = wrappedDEK s"
  "listeners (updateActivity w s) = listeners s"
  "autoLockTimeoutMs (updateActivity w s) = autoLockTimeoutMs s"
  by (simp_all add: updateActivity_def)

lemma createNewVault_inv:
  "dekImpliesWrapped s \<Longrightarrow> dekImpliesWrapped (snd (snd (createNewVault pl p w s)))"
  by (auto simp: createNewVault_def dekImpliesWrapped_def Let_def
      split: prod.splits sum.splits option.splits)

lemma unlock_inv: "dekImpliesWrapped s \<Longrightarrow> dekImpliesWrapped (snd (snd (unlock pl p w s)))"
  by (auto simp: unlock_def dekImpliesWrapped_def Let_def
      split: prod.splits sum.splits option.splits)

lemma lock_inv: "dekImpliesWrapped (snd (lock w s))"
  by (auto simp: lock_def dekImpliesWrapped_def Let_def split: option.splits)

lemma encrypt_inv: "dekImpliesWrapped s \<Longrightarrow> dekImpliesWrapped (snd (snd (encrypt pl p w s)))"
  by (auto simp: encrypt_def dekImpliesWrapped_def Let_def
      split: prod.splits sum.splits option.splits)

lemma decrypt_inv: "dekImpliesWrapped s \<Longrightarrow> dekImpliesWrapped (snd (snd (decrypt pl b w s)))"
  by (auto simp: decrypt_def dekImpliesWrapped_def Let_def
      split: prod.splits sum.splits option.splits)

lemma testPassphrase_state: "snd (snd (testPassphrase pl p w s)) = s"
  by (auto simp: testPassphrase_def split: prod.splits sum.splits option.splits)

lemma step_inv:
  "dekImpliesWrapped s \<Longrightarrow> dekImpliesWrapped (snd (step pl (w, s) opn))"
proof (cases opn)
  case (InitializeWithWrappedDEK x)
  then show ?thesis by (simp add: initializeWithWrappedDEK_def dekImpliesWrapped_def)
next
  case (CreateNewVault p)
  assume "dekImpliesWrapped s"
  then show ?thesis using CreateNewVault createNewVault_inv [of s pl p w] by simp
next
  case (Unlock p)
  assume "dekImpliesWrapped s"
  then show ?thesis using Unlock unlock_inv [of s pl p w] by simp
next
  case Lock
  then show ?thesis using lock_inv [of w s] by simp
next
  case (Encrypt p)
  assume "dekImpliesWrapped s"
  then show ?thesis using Encrypt encrypt_inv [of s pl p w] by simp
next
  case (Decrypt b)
  assume "dekImpliesWrapped s"
  then show ?thesis using Decrypt decrypt_inv [of s pl b w] by simp
next
  case (TestPassphrase p)
  assume "dekImpliesWrapped s"
  then show ?thesis using TestPassphrase testPassphrase_state [of pl p w s] by simp
next
  case (AddEventListener l)
  assume "dekImpliesWrapped s"
  then show ?thesis using AddEventListener
    by (simp add: addEventListener_def dekImpliesWrapped_def)
next
  case (RemoveEventListener l)
  assume "dekImpliesWrapped s"
  then show ?thesis using RemoveEventListener
    by (simp add: removeEventListener_def dekImpliesWrapped_def)
next
  case (SetAutoLockTimeout t)
  assume "dekImpliesWrapped s"
  then show ?thesis using SetAutoLockTimeout
    by (simp add: setAutoLockTimeout_def dekImpliesWrapped_def Let_def)
next
  case TimerFires
  have "dekImpliesWrapped (snd (autoLockTimerFires w s))"
    using lock_inv [of w s] by (auto simp: autoLockTimerFires_def split: prod.splits)
  moreover assume "dekImpliesWrapped s"
  ultimately show ?thesis using TimerFires by (simp split: option.splits)
next
  case (TimePasses d)
  assume "dekImpliesWrapped s"
  then show ?thesis using TimePasses by simp
qed

lemma run_inv:
  "dekImpliesWrapped (snd st) \<Longrightarrow> dekImpliesWrapped (snd (run pl st ops))"
proof (induction ops arbitrary: st)
  case Nil
  then show ?case by (simp add: run_def)
next
  case (Cons opn ops)
  obtain w s where st: "st = (w, s)" by (cases st)
  with Cons.prems have "dekImpliesWrapped (snd (step pl (w, s) opn))"
    using step_inv by simp
  from Cons.IH [OF this] show ?case by (simp add: run_def st)
qed

subsection \<open>What the operations return when they succeed\<close>

lemma vaultBufToBase64_fits:
  "length buffer \<le> maxArguments pl \<Longrightarrow> vaultBufToBase64 pl buffer = Inr (bufToBase64 buffer)"
  by (simp add: vaultBufToBase64_def)

lemma vaultBufToBase64_Inr:
  "vaultBufToBase64 pl buffer = Inr str \<Longrightarrow> str = bufToBase64 buffer"
  by (simp add: vaultBufToBase64_def split: if_splits)

lemma randomBytes_length: "length (fst (randomBytes pl n w)) = n"
  by (simp add: randomBytes_def)

lemma encrypt_unlocked:
  assumes "dek s = Some key"
    and "aesGcmEncrypt pl key (fst (randomBytes pl 12 w)) (utf8Encode plaintext) = Some c"
    and "12 \<le> maxArguments pl" "length c \<le> maxArguments pl"
  shows "encrypt pl plaintext w s =
     (Inr \<lparr>v = 1,
            kdf = (case wrappedDEK s of None \<Rightarrow> Pbkdf2 | Some wrapped \<Rightarrow> kdf wrapped),
            salt = (case wrappedDEK s of None \<Rightarrow> [] | Some wrapped \<Rightarrow> salt wrapped),
            iv = bufToBase64 (fst (randomBytes pl 12 w)), ct = bufToBase64 c\<rparr>,
      logAudit (EncryptLogged True) (snd (randomBytes pl 12 w)), updateActivity w s)"
  using assms
  by (simp add: encrypt_def Let_def case_prod_beta vaultBufToBase64_fits randomBytes_length)

lemma encrypt_Inr:
  assumes "encrypt pl plaintext w s = (Inr blob, w1, s1)"
  obtains key c where
    "dek s = Some key"
    "aesGcmEncrypt pl key (fst (randomBytes pl 12 w)) (utf8Encode plaintext) = Some c"
    "iv blob = bufToBase64 (fst (randomBytes pl 12 w))"
    "ct blob = bufToBase64 c"
  using assms unfolding encrypt_def
  by (auto simp: Let_def dest!: vaultBufToBase64_Inr
      split: prod.splits sum.splits option.splits)

lemma decrypt_unlocked:
  assumes "dek s = Some key"
    and "iv blob = bufToBase64 nonce" "ct blob = bufToBase64 c"
    and "aesGcmDecrypt pl key nonce c = Some plain"
  shows "decrypt pl blob w s =
     (Inr (utf8Decode plain), logAudit (DecryptLogged True) w, updateActivity w s)"
  using assms by (simp add: decrypt_def Let_def base64_roundtrip)

lemma importAesKey_32: "length raw = 32 \<Longrightarrow> importAesKey raw = Inr raw"
  by (simp add: importAesKey_def)

lemma unlock_success:
  assumes "wrappedDEK s = Some wrapped"
    and "salt wrapped = bufToBase64 saltBytes" "iv wrapped = bufToBase64 nonce"
    and "ct wrapped = bufToBase64 c"
    and "8 \<le> length p"
    and "deriveKey pl p saltBytes w = (Inr (kek, t), w1)"
    and "aesGcmDecrypt pl kek nonce c = Some d" and "length d = 32"
  shows "unlock pl p w s =
     (Inr (),
      notifyListeners Unlocked s (logAudit (VaultUnlockLogged True) w1),
      resetAutoLockTimer w1 (s\<lparr>dek := Some d, lastActivity := Some (now w1)\<rparr>))"
proof -
  have "p \<noteq> []" using assms(5) by auto
  then show ?thesis
    using assms
    by (simp add: unlock_def base64_roundtrip importAesKey_32 Let_def notifyListeners_def)
qed

text \<open>The vault decrypts what a vault with the same DEK encrypted.\<close>

lemma decrypt_encrypt:
  assumes "aeadCorrect pl"
    and "encrypt pl plaintext wE sE = (Inr blob, wE1, sE1)"
    and "dek sR = dek sE"
  shows "fst (decrypt pl blob wD sR) = Inr (utf8Decode (utf8Encode plaintext))"
proof -
  from assms(2) obtain key c where
    k: "dek sE = Some key"
    and e: "aesGcmEncrypt pl key (fst (randomBytes pl 12 wE)) (utf8Encode plaintext) = Some c"
    and i: "iv blob = bufToBase64 (fst (randomBytes pl 12 wE))"
    and c: "ct blob = bufToBase64 c"
    by (rule encrypt_Inr)
  from assms(1) e
  have "aesGcmDecrypt pl key (fst (randomBytes pl 12 wE)) c = Some (utf8Encode plaintext)"
    by (simp add: aeadCorrect_def)
  from decrypt_unlocked [OF _ i c this, of sR wD] k assms(3) show ?thesis by simp
qed

subsection \<open>The run of the vault\<close>

lemma passphrase0_length: "8 \<le> length passphrase0 \<and> passphrase0 \<noteq> []"
  by (simp add: passphrase0_def)

lemma randomBytes_dek0:
  "randomBytes refPlatform 32 world0 = (dek0, world0\<lparr>rngPos := 32\<rparr>)"
  by (simp add: randomBytes_def refPlatform_def world0_def dek0_def upt_rec)

lemma randomBytes_saltV:
  "randomBytes refPlatform 16 (world0\<lparr>rngPos := 32\<rparr>) = (saltV, world0\<lparr>rngPos := 48\<rparr>)"
  by (simp add: randomBytes_def refPlatform_def world0_def saltV_def upt_rec)

lemma randomBytes_ivV:
  "randomBytes refPlatform 12 (world0\<lparr>rngPos := 48, argon2Available := True\<rparr>) =
     (ivV, world0\<lparr>rngPos := 60, argon2Available := True\<rparr>)"
  by (simp add: randomBytes_def refPlatform_def world0_def ivV_def upt_rec)

lemma randomBytes_nonce1:
  "randomBytes refPlatform 12 world60 = (nonce1, world60\<lparr>rngPos := 72\<rparr>)"
  by (simp add: randomBytes_def refPlatform_def world60_def world0_def nonce1_def upt_rec)


lemma deriveKey_saltV:
  "deriveKey refPlatform passphrase0 saltV w =
     (Inr (key0, Argon2id), w\<lparr>argon2Available := True\<rparr>)"
  by (simp add: deriveKey_ref utf8Encode_passphrase0 saltV_def byteSum_def key0_def)

lemma byteSum_dek0: "byteSum dek0 = 240"
  by (simp add: dek0_def byteSum_def)

lemma refEncrypt_dek0: "refEncrypt key0 ivV dek0 = Some wrappedBytes0"
  by (simp add: refEncrypt_def byteSum_key0 wrappedBytes0_def)
    (simp add: ivV_def dek0_def refTag_12 byteSum_key0 byteSum_Nil byteSum_Cons)

lemma refEncrypt_nonce1_secretA: "refEncrypt dek0 nonce1 (utf8Encode secretA) = Some ctV1"
  by (simp add: refEncrypt_def byteSum_dek0 utf8Encode_secretA ctV1_def)
    (simp add: nonce1_def refTag_12 byteSum_dek0 byteSum_Nil byteSum_Cons)


lemma refEncrypt_nonce1_bomText:
  "refEncrypt dek0 nonce1 (utf8Encode bomText) =
     Some [130, 78, 82, 19, 26, 33, 40, 47, 54, 61, 68, 75, 82, 89, 96, 108, 108, 108, 108]"
  by (simp add: refEncrypt_def byteSum_dek0 utf8Encode_bomText)
    (simp add: nonce1_def refTag_12 byteSum_dek0 byteSum_Nil byteSum_Cons)

lemma createNewVault_run:
  "createNewVault refPlatform passphrase0 world0 newSecureVault =
     (Inr wrapped0, world60, vault1)"
  using passphrase0_length
  by (simp add: createNewVault_def randomBytes_dek0 randomBytes_saltV deriveKey_saltV
      randomBytes_ivV ref_fields refEncrypt_dek0 Let_def vaultBufToBase64_def)
    (simp add: wrapped0_def world60_def vault1_def newSecureVault_def world0_def
      saltV_def ivV_def wrappedBytes0_def timeoutDelay_def
      resetAutoLockTimer_def clearAutoLockTimer_def notifyListeners_def logAudit_def)

lemma vault1_activity: "updateActivity world60 vault1 = vault1"
  "updateActivity world72 vault1 = vault1"
  by (simp_all add: updateActivity_def resetAutoLockTimer_def clearAutoLockTimer_def vault1_def
      world72_def world60_def world0_def timeoutDelay_def)

lemma encrypt_run1:
  "encrypt refPlatform secretA world60 vault1 = (Inr blobV1, world72, vault1)"
proof -
  let ?c = "ctV1"
  have d: "dek vault1 = Some dek0" by (simp add: vault1_def)
  have e: "aesGcmEncrypt refPlatform dek0 (fst (randomBytes refPlatform 12 world60)) (utf8Encode secretA) =
      Some ?c"
    by (simp add: ref_fields randomBytes_nonce1 refEncrypt_nonce1_secretA)
  have m: "12 \<le> maxArguments refPlatform" "length ?c \<le> maxArguments refPlatform"
    by (simp_all add: ref_fields ctV1_def)
  from encrypt_unlocked [OF d e m]
  show ?thesis
    by (simp add: randomBytes_nonce1 vault1_activity)
      (simp add: vault1_def wrapped0_def blobV1_def world72_def world60_def logAudit_def)
qed


lemma encrypt_runBOM:
  "encrypt refPlatform bomText world60 vault1 = (Inr blobVBOM, world72, vault1)"
proof -
  let ?c = "[130, 78, 82, 19, 26, 33, 40, 47, 54, 61, 68, 75, 82, 89, 96, 108, 108, 108, 108]"
  have d: "dek vault1 = Some dek0" by (simp add: vault1_def)
  have e: "aesGcmEncrypt refPlatform dek0 (fst (randomBytes refPlatform 12 world60)) (utf8Encode bomText) =
      Some ?c"
    by (simp add: ref_fields randomBytes_nonce1 refEncrypt_nonce1_bomText)
  have m: "12 \<le> maxArguments refPlatform" "length ?c \<le> maxArguments refPlatform"
    by (simp_all add: ref_fields)
  from encrypt_unlocked [OF d e m]
  show ?thesis
    by (simp add: randomBytes_nonce1 vault1_activity)
      (simp add: vault1_def wrapped0_def blobVBOM_def world72_def world60_def logAudit_def)
qed

lemma unlock_run:
  "unlock refPlatform passphrase0 world0 (initializeWithWrappedDEK wrapped0 newSecureVault) =
     (Inr (), worldR, vault1)"
proof -
  let ?s0 = "initializeWithWrappedDEK wrapped0 newSecureVault"
  have w0: "wrappedDEK ?s0 = Some wrapped0" by (simp add: initializeWithWrappedDEK_def)
  have f: "salt wrapped0 = bufToBase64 saltV" "iv wrapped0 = bufToBase64 ivV"
    "ct wrapped0 = bufToBase64 wrappedBytes0" by (simp_all add: wrapped0_def)
  have d: "aesGcmDecrypt refPlatform key0 ivV wrappedBytes0 = Some dek0"
    using refDecrypt_refEncrypt [OF refEncrypt_dek0] by (simp add: ref_fields)
  have l: "length dek0 = 32" by (simp add: dek0_def)
  from unlock_success [OF w0 f _ deriveKey_saltV d l] passphrase0_length
  show ?thesis
    by (simp add: initializeWithWrappedDEK_def newSecureVault_def resetAutoLockTimer_def
        clearAutoLockTimer_def notifyListeners_def logAudit_def worldR_def vault1_def world0_def
        timeoutDelay_def)
qed

subsection \<open>Further facts about the vault on the stand-in platform\<close>

lemma decrypt_blobV1: "fst (decrypt refPlatform blobV1 w vault1) = Inr secretA"
  using decrypt_encrypt [OF aeadCorrect_ref encrypt_run1, of vault1 w]
    utf8_roundtrip [of secretA] wellFormed_secretA
  by simp

lemma autoLockTimerFires_notified:
  assumes "dek s \<noteq> None"
  shows "notified (fst (autoLockTimerFires w s)) =
     notified w @ map (\<lambda>l. (l, Locked)) (listeners s) @ map (\<lambda>l. (l, AutoLocked)) (listeners s)"
  using assms
  by (auto simp: autoLockTimerFires_def lock_def notifyListeners_def logAudit_def Let_def
      split: option.splits)

lemma decrypt_ignores_version: "decrypt pl (blob\<lparr>v := n\<rparr>) w s = decrypt pl blob w s"
  by (simp add: decrypt_def Let_def split: option.splits sum.splits)

lemma decryptString_version:
  "v blob \<noteq> 1 \<Longrightarrow> decryptString pl p blob w = (Inl (CryptoError UNSUPPORTED_VERSION), w)"
  by (simp add: decryptString_def decryptStringCatch_def)

lemma getVaultConfig_validRow:
  "fst (getVaultConfig pl w) \<noteq> None \<longleftrightarrow> validRow (dbResponse pl (dbCalls w))"
  by (cases "dbResponse pl (dbCalls w)" rule: validRow.cases)
    (simp_all add: getVaultConfig_def supabaseQuery_def getVaultConfigTry_def)

lemma isVaultInitialized_validRow:
  "fst (isVaultInitialized pl w) = validRow (dbResponse pl (dbCalls w))"
  using getVaultConfig_validRow [of pl w]
  by (simp add: isVaultInitialized_def case_prod_beta)

section \<open>Rejection, tampering and repetition\<close>

subsection \<open>What \<^verbatim>\<open>unlock\<close>, \<^verbatim>\<open>decryptString\<close> and \<^verbatim>\<open>decrypt\<close> do with an input they reject\<close>


lemma unlock_rejected:
  assumes "wrappedDEK s = Some wrapped"
    and "base64ToBuf (salt wrapped) = Inr saltBytes"
    and "base64ToBuf (iv wrapped) = Inr ivBytes"
    and "base64ToBuf (ct wrapped) = Inr c"
    and "deriveKey pl passphrase saltBytes w = (Inr (kek, t), w1)"
    and "aesGcmDecrypt pl kek ivBytes c = None"
  shows "fst (unlock pl passphrase w s) = Inl (CryptoError INVALID_PASSPHRASE)"
    and "snd (snd (unlock pl passphrase w s)) = s"
    and "testPassphrase pl passphrase w s = (False, w1, s)"
  using assms by (simp_all add: unlock_def testPassphrase_def)


lemma decryptString_rejected:
  assumes "v blob = 1"
    and "base64ToBuf (salt blob) = Inr saltBytes" "base64ToBuf (iv blob) = Inr ivBytes"
    and "base64ToBuf (ct blob) = Inr c"
    and "deriveKey pl p saltBytes w = (Inr (key, t), w1)"
    and "aesGcmDecrypt pl key ivBytes c = None"
  shows "fst (decryptString pl p blob w) = Inl (CryptoError INVALID_PASSPHRASE)"
  using assms by (simp add: decryptString_def decryptStringCatch_def)





subsection \<open>Two encryptions in a row\<close>





subsection \<open>The stand-in platform: wrong keys, changed bytes, repeated nonces\<close>





lemma refDecrypt_wrappedTampered: "refDecrypt key0 ivV (wrappedBytes0[0 := 152]) = None"
  by (simp add: refDecrypt_def wrappedBytes0_def ivV_def refTag_12 byteSum_key0
      byteSum_Nil byteSum_Cons)





lemma deriveKey_noArgon2:
  "\<not> argon2Available w \<Longrightarrow>
   deriveKey noArgon2Platform p saltBytes w =
     (Inr ((byteSum (utf8Encode p) + byteSum saltBytes + 17) # replicate 31 0, Pbkdf2), w)"
  by (simp add: deriveKey_def deriveKeyArgon2_def deriveKeyPBKDF2_def noArgon2Platform_def
      refPlatform_def refPbkdf2_def)

lemma noArgon2_fields: "aesGcmDecrypt noArgon2Platform = refDecrypt"
  by (simp add: noArgon2Platform_def refPlatform_def)

lemma deriveKey_keyPbkdf2_salt0:
  "deriveKey noArgon2Platform passphrase0 salt0 world0 = (Inr (keyPbkdf2, Pbkdf2), world0)"
  by (simp add: deriveKey_noArgon2 world0_def utf8Encode_passphrase0 salt0_def byteSum_def
      keyPbkdf2_def)

lemma deriveKey_keyPbkdf2_saltV:
  "deriveKey noArgon2Platform passphrase0 saltV world0 = (Inr (keyPbkdf2, Pbkdf2), world0)"
  by (simp add: deriveKey_noArgon2 world0_def utf8Encode_passphrase0 saltV_def byteSum_def
      keyPbkdf2_def)

lemma byteSum_keyPbkdf2: "byteSum keyPbkdf2 = 145"
  by (simp add: keyPbkdf2_def byteSum_Cons byteSum_replicate0)

lemma refDecrypt_keyPbkdf2_ctSecretA: "refDecrypt keyPbkdf2 iv0 ctSecretA = None"
  by (simp add: refDecrypt_def ctSecretA_def iv0_def refTag_12 byteSum_keyPbkdf2
      byteSum_Nil byteSum_Cons)

lemma refDecrypt_keyPbkdf2_wrapped: "refDecrypt keyPbkdf2 ivV wrappedBytes0 = None"
  by (simp add: refDecrypt_def wrappedBytes0_def ivV_def refTag_12 byteSum_keyPbkdf2
      byteSum_Nil byteSum_Cons)














section \<open>The claims\<close>

subsection \<open>C1: round trip of \<^verbatim>\<open>encryptString\<close> and \<^verbatim>\<open>decryptString\<close>\<close>

text \<open>
  C1 fails: decrypting, with the same passphrase, the blob that \<^verbatim>\<open>encryptString\<close> made
  does not always return the plaintext. First, \<^verbatim>\<open>utf8Decode\<close> is a \<^verbatim>\<open>TextDecoder\<close> with
  default options, which drops a leading U+FEFF: the string that consists of this one
  character is encrypted to a blob that decrypts to the empty string. Second,
  \<^verbatim>\<open>decryptString\<close> never reads the field \<^verbatim>\<open>kdf\<close> of the blob, although its comment says
  that the key derivation must match the one of the encryption: the blob made for
  \<^verbatim>\<open>secret-A\<close> with Argon2id is rejected with \<^verbatim>\<open>INVALID_PASSPHRASE\<close>, for the right
  passphrase, where the argon2 module cannot be loaded and the key is derived with
  PBKDF2.
\<close>

theorem encryptString_roundtrip_fails:
  "encryptString refPlatform passphrase0 bomText world0 = (Inr blobBOM, world28) \<and>
   fst (decryptString refPlatform passphrase0 blobBOM world28) = Inr [] \<and>
   bomText \<noteq> [] \<and>
   encryptString refPlatform passphrase0 secretA world0 = (Inr blobSecretA, world28) \<and>
   kdf blobSecretA = Argon2id \<and>
   fst (decryptString noArgon2Platform passphrase0 blobSecretA world0) =
     Inl (CryptoError INVALID_PASSPHRASE)"
proof -
  have a: "fst (decryptString refPlatform passphrase0 blobBOM world28) = Inr []"
    using decrypt_encryptString
      [OF aeadCorrect_ref consistent_ref consistent_ref encryptString_bomText, of world28]
    by (simp add: utf8Encode_bomText utf8Decode_bom)
  have f: "v blobSecretA = 1" "base64ToBuf (salt blobSecretA) = Inr salt0"
    "base64ToBuf (iv blobSecretA) = Inr iv0" "base64ToBuf (ct blobSecretA) = Inr ctSecretA"
    by (simp_all add: blobSecretA_def base64_roundtrip)
  have r: "aesGcmDecrypt noArgon2Platform keyPbkdf2 iv0 ctSecretA = None"
    by (simp add: noArgon2_fields refDecrypt_keyPbkdf2_ctSecretA)
  note b = decryptString_rejected [OF f deriveKey_keyPbkdf2_salt0 r]
  have c: "bomText \<noteq> []" "kdf blobSecretA = Argon2id"
    by (simp_all add: bomText_def blobSecretA_def)
  from a b c show ?thesis
    by (simp add: encryptString_bomText encryptString_secretA)
qed

subsection \<open>C2: \<^verbatim>\<open>createNewVault\<close>, reload, \<^verbatim>\<open>unlock\<close>\<close>

text \<open>
  C2 fails for the same two reasons as C1. \<^verbatim>\<open>createNewVault\<close> with the passphrase of the
  scenario returns a wrapped DEK with \<open>v = 1\<close> and the tag \<^verbatim>\<open>argon2id\<close>. \<^verbatim>\<open>unlock\<close> never
  reads that tag (it is only logged): on a fresh vault loaded with this record, where
  the argon2 module cannot be loaded, \<^verbatim>\<open>unlock\<close> with the same passphrase derives the key
  with PBKDF2 and fails with \<^verbatim>\<open>INVALID_PASSPHRASE\<close>. And where \<^verbatim>\<open>unlock\<close> succeeds, the
  blob that the created vault made for the plaintext U+FEFF is decrypted by the reloaded
  vault to the empty string, since \<^verbatim>\<open>decrypt\<close> ends with a \<^verbatim>\<open>TextDecoder\<close> that drops a
  leading U+FEFF.
\<close>

theorem createNewVault_unlock_fails:
  "createNewVault refPlatform passphrase0 world0 newSecureVault =
     (Inr wrapped0, world60, vault1) \<and>
   kdf wrapped0 = Argon2id \<and>
   fst (unlock noArgon2Platform passphrase0 world0
          (initializeWithWrappedDEK wrapped0 newSecureVault)) =
     Inl (CryptoError INVALID_PASSPHRASE) \<and>
   encrypt refPlatform bomText world60 vault1 = (Inr blobVBOM, world72, vault1) \<and>
   unlock refPlatform passphrase0 world0 (initializeWithWrappedDEK wrapped0 newSecureVault) =
     (Inr (), worldR, vault1) \<and>
   fst (decrypt refPlatform blobVBOM worldR vault1) = Inr [] \<and>
   bomText \<noteq> []"
proof -
  let ?s0 = "initializeWithWrappedDEK wrapped0 newSecureVault"
  have w0: "wrappedDEK ?s0 = Some wrapped0" by (simp add: initializeWithWrappedDEK_def)
  have f: "base64ToBuf (salt wrapped0) = Inr saltV" "base64ToBuf (iv wrapped0) = Inr ivV"
    "base64ToBuf (ct wrapped0) = Inr wrappedBytes0"
    by (simp_all add: wrapped0_def base64_roundtrip)
  have r: "aesGcmDecrypt noArgon2Platform keyPbkdf2 ivV wrappedBytes0 = None"
    by (simp add: noArgon2_fields refDecrypt_keyPbkdf2_wrapped)
  note a = unlock_rejected(1) [OF w0 f deriveKey_keyPbkdf2_saltV r]
  have b: "fst (decrypt refPlatform blobVBOM worldR vault1) = Inr []"
    using decrypt_encrypt [OF aeadCorrect_ref encrypt_runBOM, of vault1 worldR]
    by (simp add: utf8Encode_bomText utf8Decode_bom)
  have c: "bomText \<noteq> []" "kdf wrapped0 = Argon2id"
    by (simp_all add: bomText_def wrapped0_def)
  from a b c show ?thesis
    by (simp add: createNewVault_run encrypt_runBOM unlock_run)
qed

subsection \<open>C3: a vault without a DEK rejects \<^verbatim>\<open>encrypt\<close> and \<^verbatim>\<open>decrypt\<close>\<close>

text \<open>
  C3. While the vault holds no DEK (it is locked or was never initialised), \<^verbatim>\<open>encrypt\<close>
  and \<^verbatim>\<open>decrypt\<close> fail with \<^verbatim>\<open>VAULT_LOCKED\<close> for every input, and \<^verbatim>\<open>lock\<close> returns normally;
  none of the three changes the vault, the activity timer, the audit log or what the
  listeners have been told.
\<close>

theorem locked_vault_rejects:
  assumes "dek s = None"
  shows "encrypt pl plaintext w s = (Inl (CryptoError VAULT_LOCKED), w, s) \<and>
         decrypt pl blob w s = (Inl (CryptoError VAULT_LOCKED), w, s) \<and>
         lock w s = (w, s)"
proof (intro conjI)
  show "encrypt pl plaintext w s = (Inl (CryptoError VAULT_LOCKED), w, s)"
    using assms by (simp add: encrypt_def)
  show "decrypt pl blob w s = (Inl (CryptoError VAULT_LOCKED), w, s)"
    using assms by (simp add: decrypt_def)
  show "lock w s = (w, s)"
    using assms by (simp add: lock_def)
qed

theorem locked_vault_rejects_witness:
  "dek (initializeWithWrappedDEK wrapped0 newSecureVault) = None \<and>
   encrypt refPlatform secretA world0 (initializeWithWrappedDEK wrapped0 newSecureVault) =
     (Inl (CryptoError VAULT_LOCKED), world0, initializeWithWrappedDEK wrapped0 newSecureVault) \<and>
   decrypt refPlatform blobV1 world0 (initializeWithWrappedDEK wrapped0 newSecureVault) =
     (Inl (CryptoError VAULT_LOCKED), world0, initializeWithWrappedDEK wrapped0 newSecureVault) \<and>
   lock world0 (initializeWithWrappedDEK wrapped0 newSecureVault) =
     (world0, initializeWithWrappedDEK wrapped0 newSecureVault)"
proof -
  have d: "dek (initializeWithWrappedDEK wrapped0 newSecureVault) = None"
    by (simp add: initializeWithWrappedDEK_def newSecureVault_def)
  from locked_vault_rejects [OF d, of refPlatform secretA world0 blobV1] d
  show ?thesis by simp
qed

subsection \<open>C4: \<^verbatim>\<open>unlock\<close> and \<^verbatim>\<open>testPassphrase\<close> when the wrapped DEK is not authenticated\<close>




subsection \<open>C5: changed blobs\<close>




subsection \<open>C6: the version field\<close>

text \<open>
  C6 fails for the vault. \<^verbatim>\<open>SecureVault.decrypt\<close> never reads the field \<open>v\<close> (lemma
  \<open>decrypt_ignores_version\<close>): the blob that the vault made for \<^verbatim>\<open>secret-A\<close>, relabelled
  with version 2, is decrypted to \<^verbatim>\<open>secret-A\<close>, whereas \<^verbatim>\<open>decryptString\<close> rejects a blob
  relabelled in the same way with \<^verbatim>\<open>UNSUPPORTED_VERSION\<close>.
\<close>

theorem vault_decrypt_accepts_version_2:
  "fst (decrypt refPlatform (blobV1\<lparr>v := 2\<rparr>) world72 vault1) = Inr secretA \<and>
   fst (decryptString refPlatform passphrase0 (blobSecretA\<lparr>v := 2\<rparr>) world28) =
     Inl (CryptoError UNSUPPORTED_VERSION)"
  by (simp add: decrypt_ignores_version decrypt_blobV1 decryptString_version)

subsection \<open>C7: two encryptions of one plaintext\<close>




subsection \<open>C8: the events of an automatic lock\<close>

text \<open>
  C8 fails. The callback of the auto-lock timer calls \<^verbatim>\<open>lock\<close>, which tells every listener
  \<^verbatim>\<open>locked\<close>, and then tells every listener \<^verbatim>\<open>auto-locked\<close>: when the timer of the
  unlocked vault with listeners 1 and 2 fires, each of them receives two events for the
  one transition.
\<close>

theorem autoLock_notifies_locked_and_autoLocked:
  "notified (fst (step refPlatform (worldT, vaultL) TimerFires)) =
     [(1, Locked), (2, Locked), (1, AutoLocked), (2, AutoLocked)] \<and>
   dek vaultL = Some dek0 \<and> dek (snd (step refPlatform (worldT, vaultL) TimerFires)) = None"
proof -
  have d: "dek vaultL = Some dek0" and l: "listeners vaultL = [1, 2]"
    and t: "autoLockTimer vaultL = Some 900000"
    by (simp_all add: vaultL_def vault1_def)
  have n: "now worldT = 900000" "notified worldT = []"
    by (simp_all add: worldT_def world60_def world0_def)
  have s: "step refPlatform (worldT, vaultL) TimerFires = autoLockTimerFires worldT vaultL"
    by (simp add: t n)
  have "dek (snd (autoLockTimerFires worldT vaultL)) = None"
    using d by (simp add: autoLockTimerFires_def lock_def Let_def split: prod.splits)
  with autoLockTimerFires_notified [of vaultL worldT] d l n s show ?thesis by simp
qed

subsection \<open>C9: \<^verbatim>\<open>isFirstTimeUser\<close>\<close>

text \<open>
  C9, as amended. \<^verbatim>\<open>isFirstTimeUser\<close> never reports an error: on every platform and from
  every state it returns a boolean, and this is \<^verbatim>\<open>true\<close> exactly when the answer to its
  last query (the one after \<^verbatim>\<open>initialize\<close>) is not a valid vault configuration, be it
  that there is no row, that the row is a placeholder or malformed, or that the query
  failed.
\<close>

theorem isFirstTimeUser_result:
  "fst (isFirstTimeUser pl w m) =
     Inr (\<not> validRow (dbResponse pl (dbCalls (fst (initialize pl w m)))))"
  by (simp add: isFirstTimeUser_def case_prod_beta isVaultInitialized_validRow)

theorem isFirstTimeUser_result_witness:
  "fst (isFirstTimeUser storedPlatform world0 newVaultManager) = Inr False \<and>
   fst (isFirstTimeUser refPlatform world0 newVaultManager) = Inr True"
  using isFirstTimeUser_result [of storedPlatform world0 newVaultManager]
    isFirstTimeUser_result [of refPlatform world0 newVaultManager]
  by (simp add: storedPlatform_def refPlatform_def wrapped0_def bufToBase64_def
      saltV_def ivV_def wrappedBytes0_def)

text \<open>
  C9 as stated fails in its second half: where every query ends in a network error,
  \<^verbatim>\<open>getVaultConfig\<close> catches the error and returns \<^verbatim>\<open>null\<close>, and \<^verbatim>\<open>isFirstTimeUser\<close>
  returns \<^verbatim>\<open>true\<close>.
\<close>

theorem isFirstTimeUser_counterexample:
  "fst (isFirstTimeUser offlinePlatform world0 newVaultManager) = Inr True \<and>
   (\<forall>i. getVaultConfigTry (dbResponse offlinePlatform i) = Inl NetworkError)"
  by (simp add: isFirstTimeUser_def initialize_def isVaultInitialized_def getVaultConfig_def
      supabaseQuery_def getVaultConfigTry_def offlinePlatform_def newVaultManager_def
      world0_def)

subsection \<open>C10: a DEK in memory comes with a wrapped record\<close>

text \<open>
  C10, as amended. In every state that a new vault reaches by any sequence of
  operations, on any platform, a DEK in memory implies that a wrapped DEK is held; and
  every single operation preserves this from any state where it holds.
\<close>

theorem dek_implies_wrapped_invariant:
  "dekImpliesWrapped (snd (run pl (w, newSecureVault) ops)) \<and>
   (\<forall>s w' opn. dekImpliesWrapped s \<longrightarrow> dekImpliesWrapped (snd (step pl (w', s) opn)))"
proof
  have "dekImpliesWrapped (snd (w, newSecureVault))"
    by (simp add: dekImpliesWrapped_def newSecureVault_def)
  then show "dekImpliesWrapped (snd (run pl (w, newSecureVault) ops))"
    by (rule run_inv)
  show "\<forall>s w' opn. dekImpliesWrapped s \<longrightarrow> dekImpliesWrapped (snd (step pl (w', s) opn))"
    using step_inv by blast
qed

theorem dek_implies_wrapped_invariant_witness:
  "run refPlatform (world0, newSecureVault) [CreateNewVault passphrase0] = (world60, vault1) \<and>
   dek vault1 = Some dek0 \<and> wrappedDEK vault1 \<noteq> None"
proof -
  have r: "run refPlatform (world0, newSecureVault) [CreateNewVault passphrase0]
      = (world60, vault1)"
    by (simp add: run_def createNewVault_run)
  have d: "dek vault1 = Some dek0" by (simp add: vault1_def)
  from dek_implies_wrapped_invariant [of refPlatform world0 "[CreateNewVault passphrase0]"]
  have "dekImpliesWrapped vault1" by (simp add: r)
  with d have "wrappedDEK vault1 \<noteq> None" by (simp add: dekImpliesWrapped_def)
  with r d show ?thesis by simp
qed

text \<open>
  C10 as stated, with the record being the one that corresponds to the key material,
  fails: \<^verbatim>\<open>initializeWithWrappedDEK\<close> replaces the record of an unlocked vault and keeps
  the DEK. After \<^verbatim>\<open>createNewVault\<close> and \<^verbatim>\<open>initializeWithWrappedDEK\<close> with another record,
  the vault holds the DEK of the first record together with the second, which the
  passphrase of the vault does not open.
\<close>

theorem dek_implies_wrapped_counterexample:
  "run refPlatform (world0, newSecureVault)
     [CreateNewVault passphrase0, InitializeWithWrappedDEK wrappedTampered] =
     (world60, vaultSwapped) \<and>
   dek vaultSwapped = Some dek0 \<and>
   wrappedDEK vaultSwapped = Some wrappedTampered \<and>
   wrappedTampered \<noteq> wrapped0 \<and>
   fst (testPassphrase refPlatform passphrase0 world60 vaultSwapped) = False"
proof -
  have r: "run refPlatform (world0, newSecureVault)
     [CreateNewVault passphrase0, InitializeWithWrappedDEK wrappedTampered] =
     (world60, vaultSwapped)"
    by (simp add: run_def createNewVault_run initializeWithWrappedDEK_def vaultSwapped_def)
  have d: "dek vaultSwapped = Some dek0" "wrappedDEK vaultSwapped = Some wrappedTampered"
    by (simp_all add: vaultSwapped_def vault1_def)
  have "wrappedBytes0[0 := 152] \<noteq> wrappedBytes0" by (simp add: wrappedBytes0_def)
  then have "ct wrappedTampered \<noteq> ct wrapped0"
    by (simp add: wrappedTampered_def wrapped0_def bufToBase64_inj)
  then have n: "wrappedTampered \<noteq> wrapped0" by auto
  have f: "base64ToBuf (salt wrappedTampered) = Inr saltV"
    "base64ToBuf (iv wrappedTampered) = Inr ivV"
    "base64ToBuf (ct wrappedTampered) = Inr (wrappedBytes0[0 := 152])"
    by (simp_all add: wrappedTampered_def wrapped0_def base64_roundtrip)
  have rj: "aesGcmDecrypt refPlatform key0 ivV (wrappedBytes0[0 := 152]) = None"
    by (simp add: ref_fields refDecrypt_wrappedTampered)
  from unlock_rejected(3) [OF d(2) f deriveKey_saltV rj]
  have "fst (testPassphrase refPlatform passphrase0 world60 vaultSwapped) = False" by simp
  with r d n show ?thesis by simp
qed

end
